theory Spec2Isabelle
  imports Complex_Main "HOL-Library.Sublist"
begin

section \<open>Strings: the Python string operations the downloader uses\<close>

text \<open>
  Python strings are modelled as \<open>string\<close> (lists of 8-bit characters: a character
  outside ASCII appears as the bytes of its UTF-8 encoding, which never contain an
  ASCII byte, so that searching, splitting and replacing ASCII text agree with Python's
  operations on code points); byte strings likewise. \<open>str.lower\<close> follows the Unicode
  case tables of the interpreter and is a part of the environment (see \<open>world\<close>).
\<close>

text \<open>\<open>a in b\<close> on strings: \<open>a\<close> occurs in \<open>b\<close> as a contiguous substring.\<close>

fun str_in :: "string \<Rightarrow> string \<Rightarrow> bool" where
  "str_in a [] = (a = [])"
| "str_in a (c # cs) = (prefix a (c # cs) \<or> str_in a cs)"

text \<open>
  \<open>s.replace(old, new)\<close>: occurrences of \<open>old\<close> are found from the left and do not
  overlap; the scan resumes after each replaced occurrence. With an empty \<open>old\<close>
  Python puts \<open>new\<close> before every character and at the end.
\<close>

function replace :: "string \<Rightarrow> string \<Rightarrow> string \<Rightarrow> string" where
  "replace old new s =
     (if old = [] then new @ concat (map (\<lambda>c. c # new) s)
      else if s = [] then []
      else if prefix old s then new @ replace old new (drop (length old) s)
      else hd s # replace old new (tl s))"
  by pat_completeness auto
termination
  by (relation "measure (\<lambda>(old, new, s). length s)") (auto simp: neq_Nil_conv)

declare replace.simps [simp del]

text \<open>
  \<open>s.split(sep)\<close> for a non-empty separator: the pieces between the occurrences of
  \<open>sep\<close>, found from the left without overlap. \<open>acc\<close> holds the current piece,
  reversed. The list is never empty, so \<open>[-1]\<close> is its last element.
\<close>

function split_from :: "string \<Rightarrow> string \<Rightarrow> string \<Rightarrow> string list" where
  "split_from sep acc s =
     (if s = [] then [rev acc]
      else if sep \<noteq> [] \<and> prefix sep s then rev acc # split_from sep [] (drop (length sep) s)
      else split_from sep (hd s # acc) (tl s))"
  by pat_completeness auto
termination
  by (relation "measure (\<lambda>(sep, acc, s). length s)") (auto simp: neq_Nil_conv)

declare split_from.simps [simp del]

definition split :: "string \<Rightarrow> string \<Rightarrow> string list" where
  "split s sep = split_from sep [] s"

section \<open>The owner/repo pattern\<close>

text \<open>
  \<open>re.search(r"github\.com/([^/]+)/([^/]+)", s)\<close>. \<open>match_at\<close> matches the pattern
  at the head of \<open>s\<close>: the literal, then the longest run of non-slash characters (the
  owner; \<open>+\<close> wants at least one), a slash, and the longest run of non-slash
  characters (the repository; at least one). A shorter owner never helps, since the
  character after it would have to be a slash. \<open>re_search\<close> tries every start from the
  left, as \<open>re.search\<close> does, and returns the groups of the first match.
\<close>

definition not_slash :: "char \<Rightarrow> bool" where
  "not_slash c = (c \<noteq> CHR ''/'')"

definition match_at :: "string \<Rightarrow> (string \<times> string) option" where
  "match_at s =
     (if prefix ''github.com/'' s then
        (let r = drop (length ''github.com/'') s;
             owner = takeWhile not_slash r
         in if owner = [] then None
            else (case dropWhile not_slash r of
                    [] \<Rightarrow> None
                  | c # t \<Rightarrow>
                      (let repo = takeWhile not_slash t
                       in if repo = [] then None else Some (owner, repo))))
      else None)"

fun re_search :: "string \<Rightarrow> (string \<times> string) option" where
  "re_search [] = match_at []"
| "re_search (c # cs) =
     (case match_at (c # cs) of Some m \<Rightarrow> Some m | None \<Rightarrow> re_search cs)"

section \<open>get_repo_name\<close>

definition get_repo_name :: "string \<Rightarrow> string" where
  "get_repo_name repo_url =
     (case re_search repo_url of
        Some (owner, repo) \<Rightarrow> replace ''.git'' '''' repo
      | None \<Rightarrow> ''downloaded_repo'')"

section \<open>Exceptions, JSON values and the environment\<close>

text \<open>
  The exceptions of the model are those of class \<open>Exception\<close>, which is what the
  handlers (\<open>except Exception\<close>) catch; interrupts and \<open>SystemExit\<close> are not modelled. \<open>Exception msg\<close> is the one the source raises
  itself; \<open>Raised txt\<close> is raised by a library or system call (requests, zipfile, os,
  open, int) and carries its \<open>str()\<close>; the remaining ones are raised by the interpreter
  while the decoded JSON is read.
\<close>

datatype exn =
    Exception string
  | Raised string
  | AttributeError
  | KeyError
  | IndexError
  | TypeError
  | InvalidURL

text \<open>What \<open>response.json()\<close> produces.\<close>

datatype pyval =
    PNone
  | PBool bool
  | PInt int
  | PFloat real
  | PStr string
  | PList "pyval list"
  | PDict "(string \<times> pyval) list"

text \<open>
  A streamed response: \<open>chunks\<close> is what \<open>iter_content\<close> yields (a stream that ends;
  a connection that stalls for ever is not modelled), \<open>stream_error\<close> the
  exception it raises after the last of them (if the transfer breaks), \<open>content_length\<close>
  the header as \<open>int()\<close> reads it (\<open>None\<close> when absent, \<open>Inl\<close> when \<open>int()\<close> rejects it),
  \<open>http_error\<close> the text of the \<open>HTTPError\<close> that \<open>raise_for_status\<close> raises.
\<close>

record response =
  status_code :: nat
  http_error :: string
  content_length :: "(exn + int) option"
  json :: "exn + pyval"
  chunks :: "string list"
  stream_error :: "exn option"

text \<open>A file or a directory with its named children, in listing order.\<close>

datatype node = File | Dir "(string \<times> node) list"

text \<open>
  The outcome of \<open>f.write(chunk)\<close>. \<open>Accepted n\<close>: the call returns; of the bytes
  waiting (the pending ones, then the chunk) the first \<open>n\<close> have reached the disk, the
  others wait. \<open>Failed n m e\<close>: the call raises \<open>e\<close>; the first \<open>n\<close> of the bytes waiting
  have reached the disk, the next \<open>m\<close> stay in the buffer, the others are lost.
\<close>

datatype write_result = Accepted nat | Failed nat nat exn

text \<open>
  The environment of one call. \<open>requests_get k url\<close> answers the request number \<open>k\<close>
  of the call (counted from 0). \<open>listdir\<close> is the destination directory as
  \<open>os.listdir\<close> finds it once the archive is extracted. \<open>exn_text\<close> is the
  interpreter's \<open>str(e)\<close> for its own exceptions, \<open>py_str\<close> the interpreter's \<open>str()\<close> of
  a value that is not a string, \<open>str_lower\<close> is \<open>str.lower\<close>, \<open>path_join\<close> is
  \<open>os.path.join\<close>.

  The file object that \<open>open(path, "wb")\<close> returns is buffered: bytes handed to
  \<open>f.write\<close> reach the disk during that call, during a later one, or when the file is
  closed, and an error of the disk is raised by whichever of these calls meets it.
  \<open>file_write path on_disk pending chunk\<close> says what a call of \<open>f.write(chunk)\<close> does
  when the file holds \<open>on_disk\<close> and the bytes \<open>pending\<close> wait in the buffer, and
  \<open>file_close path on_disk pending\<close> what closing the file does: \<open>None\<close> when all
  pending bytes are written, \<open>Some (n, e)\<close> when \<open>n\<close> of them are written and \<open>e\<close> is
  raised.
\<close>

record world =
  requests_get :: "nat \<Rightarrow> string \<Rightarrow> exn + response"
  exn_text :: "exn \<Rightarrow> string"
  py_str :: "pyval \<Rightarrow> string"
  str_lower :: "string \<Rightarrow> string"
  path_join :: "string \<Rightarrow> string \<Rightarrow> string"
  open_error :: "string \<Rightarrow> exn option"
  file_write :: "string \<Rightarrow> string \<Rightarrow> string \<Rightarrow> string \<Rightarrow> write_result"
  file_close :: "string \<Rightarrow> string \<Rightarrow> string \<Rightarrow> (nat \<times> exn) option"
  extractall :: "string \<Rightarrow> string \<Rightarrow> exn option"
  listdir :: "string \<Rightarrow> exn + (string \<times> node) list"

text \<open>
  What a call leaves behind: the invocations of the progress callback (fraction and
  message; the fractions are exact numbers here, floating-point numbers in Python),
  the URLs requested, the files on the disk as far as \<open>open(..., "wb")\<close> wrote them,
  and the bytes that wait in the buffer of the file that is open (a call opens at
  most one).
\<close>

record state =
  trace :: "(real \<times> string) list"
  requests :: "string list"
  disk :: "string \<rightharpoonup> string"
  pending :: string

text \<open>
  The optional progress callback. A callback sees the invocations made so far, the
  current one last, and returns normally (\<open>None\<close>) or raises.
\<close>

type_synonym callback = "((real \<times> string) list \<Rightarrow> exn option) option"

type_synonym 'a py = "state \<Rightarrow> state \<times> (exn + 'a)"

definition py_return :: "'a \<Rightarrow> 'a py" where
  "py_return v s = (s, Inr v)"

definition py_raise :: "exn \<Rightarrow> 'a py" where
  "py_raise e s = (s, Inl e)"

definition py_lift :: "exn + 'a \<Rightarrow> 'a py" where
  "py_lift r s = (s, r)"

definition py_bind :: "'a py \<Rightarrow> ('a \<Rightarrow> 'b py) \<Rightarrow> 'b py" where
  "py_bind m f s = (case m s of (s', Inl e) \<Rightarrow> (s', Inl e) | (s', Inr v) \<Rightarrow> f v s')"

text \<open>\<open>try: m  except Exception as e: h e\<close>\<close>

definition try_except :: "'a py \<Rightarrow> (exn \<Rightarrow> 'a py) \<Rightarrow> 'a py" where
  "try_except m h s = (case m s of (s', Inl e) \<Rightarrow> h e s' | (s', Inr v) \<Rightarrow> (s', Inr v))"

text \<open>\<open>str(e)\<close>\<close>

definition str_exn :: "world \<Rightarrow> exn \<Rightarrow> string" where
  "str_exn w e = (case e of Exception m \<Rightarrow> m | Raised m \<Rightarrow> m | _ \<Rightarrow> exn_text w e)"

text \<open>A value inside an f-string.\<close>

definition format :: "world \<Rightarrow> pyval \<Rightarrow> string" where
  "format w v = (case v of PStr t \<Rightarrow> t | _ \<Rightarrow> py_str w v)"

text \<open>\<open>if progress_callback: progress_callback(fraction, message)\<close>\<close>

definition progress_callback :: "callback \<Rightarrow> real \<Rightarrow> string \<Rightarrow> unit py" where
  "progress_callback cb fraction message s =
     (case cb of
        None \<Rightarrow> (s, Inr ())
      | Some f \<Rightarrow>
          (let t = trace s @ [(fraction, message)]
           in (s\<lparr>trace := t\<rparr>, case f t of None \<Rightarrow> Inr () | Some e \<Rightarrow> Inl e)))"

text \<open>\<open>requests.get(url, ...)\<close>\<close>

definition http_get :: "world \<Rightarrow> string \<Rightarrow> response py" where
  "http_get w url s =
     (s\<lparr>requests := requests s @ [url]\<rparr>, requests_get w (length (requests s)) url)"

text \<open>\<open>response.raise_for_status()\<close>\<close>

definition raise_for_status :: "response \<Rightarrow> unit py" where
  "raise_for_status r =
     (if 400 \<le> status_code r \<and> status_code r < 600 then py_raise (Raised (http_error r))
      else py_return ())"

text \<open>\<open>int(response.headers.get('content-length', 0))\<close>\<close>

definition total_of :: "response \<Rightarrow> int py" where
  "total_of r = py_lift (case content_length r of None \<Rightarrow> Inr 0 | Some x \<Rightarrow> x)"

text \<open>Truth value of a JSON value, as \<open>not\<close> and \<open>if\<close> take it.\<close>

fun truthy :: "pyval \<Rightarrow> bool" where
  "truthy PNone = False"
| "truthy (PBool b) = b"
| "truthy (PInt i) = (i \<noteq> 0)"
| "truthy (PFloat x) = (x \<noteq> 0)"
| "truthy (PStr t) = (t \<noteq> [])"
| "truthy (PList vs) = (vs \<noteq> [])"
| "truthy (PDict kvs) = (kvs \<noteq> [])"

text \<open>\<open>v.get(key, default)\<close>: only a dict has \<open>get\<close>.\<close>

fun py_get :: "pyval \<Rightarrow> string \<Rightarrow> pyval \<Rightarrow> exn + pyval" where
  "py_get (PDict kvs) key dflt = Inr (case map_of kvs key of Some v \<Rightarrow> v | None \<Rightarrow> dflt)"
| "py_get _ key dflt = Inl AttributeError"

text \<open>\<open>v[key]\<close> with a string key.\<close>

fun getitem :: "pyval \<Rightarrow> string \<Rightarrow> exn + pyval" where
  "getitem (PDict kvs) key = (case map_of kvs key of Some v \<Rightarrow> Inr v | None \<Rightarrow> Inl KeyError)"
| "getitem _ key = Inl TypeError"

text \<open>\<open>v[0]\<close>\<close>

fun getitem0 :: "pyval \<Rightarrow> exn + pyval" where
  "getitem0 (PList []) = Inl IndexError"
| "getitem0 (PList (v # vs)) = Inr v"
| "getitem0 (PStr []) = Inl IndexError"
| "getitem0 (PStr (c # cs)) = Inr (PStr [c])"
| "getitem0 (PDict kvs) = Inl KeyError"
| "getitem0 _ = Inl TypeError"

section \<open>get_default_branch\<close>

definition get_default_branch_body :: "world \<Rightarrow> string \<Rightarrow> pyval py" where
  "get_default_branch_body w repo_url =
     (case re_search repo_url of
        None \<Rightarrow> py_return (PStr ''main'')
      | Some (owner, repo) \<Rightarrow>
          py_bind (http_get w (''https://api.github.com/repos/'' @ owner @ ''/'' @ repo))
            (\<lambda>response.
               if status_code response = 200 then
                 py_bind (py_lift (json response))
                   (\<lambda>data. py_lift (py_get data ''default_branch'' (PStr ''main'')))
               else py_return (PStr ''main'')))"

definition get_default_branch :: "world \<Rightarrow> string \<Rightarrow> pyval py" where
  "get_default_branch w repo_url =
     try_except (get_default_branch_body w repo_url) (\<lambda>e. py_return (PStr ''main''))"

section \<open>download_latest_release\<close>

text \<open>\<open>open(local_file, "wb")\<close>: the file is created, or emptied when it exists.\<close>

definition open_wb :: "world \<Rightarrow> string \<Rightarrow> unit py" where
  "open_wb w path s =
     (case open_error w path of
        Some e \<Rightarrow> (s, Inl e)
      | None \<Rightarrow> (s\<lparr>disk := (disk s)(path \<mapsto> []), pending := []\<rparr>, Inr ()))"

text \<open>The bytes of the file at \<open>path\<close> that are on the disk.\<close>

definition on_disk :: "state \<Rightarrow> string \<Rightarrow> string" where
  "on_disk s path = (case disk s path of Some b \<Rightarrow> b | None \<Rightarrow> [])"

text \<open>\<open>f.write(chunk)\<close> on the buffered file.\<close>

definition f_write :: "world \<Rightarrow> string \<Rightarrow> string \<Rightarrow> unit py" where
  "f_write w path chunk s =
     (let waiting = pending s @ chunk
      in case file_write w path (on_disk s path) (pending s) chunk of
           Accepted n \<Rightarrow>
             (s\<lparr>disk := (disk s)(path \<mapsto> on_disk s path @ take n waiting),
                pending := drop n waiting\<rparr>, Inr ())
         | Failed n m e \<Rightarrow>
             (s\<lparr>disk := (disk s)(path \<mapsto> on_disk s path @ take n waiting),
                pending := take m (drop n waiting)\<rparr>, Inl e))"

text \<open>
  Closing the file: the pending bytes are flushed; the file is closed also when the
  flush fails, and what was not written then is lost.
\<close>

definition f_close :: "world \<Rightarrow> string \<Rightarrow> unit py" where
  "f_close w path s =
     (case file_close w path (on_disk s path) (pending s) of
        None \<Rightarrow>
          (s\<lparr>disk := (disk s)(path \<mapsto> on_disk s path @ pending s), pending := []\<rparr>, Inr ())
      | Some (n, e) \<Rightarrow>
          (s\<lparr>disk := (disk s)(path \<mapsto> on_disk s path @ take n (pending s)), pending := []\<rparr>,
           Inl e))"

text \<open>
  Leaving a \<open>with\<close> block: \<open>leave\<close> runs when the block \<open>m\<close> returns and when it raises;
  an exception of \<open>leave\<close> replaces the outcome of the block.
\<close>

definition on_exit :: "'a py \<Rightarrow> unit py \<Rightarrow> 'a py" where
  "on_exit m leave s =
     (case m s of (s1, r) \<Rightarrow>
        (case leave s1 of (s2, Inl e) \<Rightarrow> (s2, Inl e) | (s2, Inr u) \<Rightarrow> (s2, r)))"

text \<open>\<open>os.path.join(save_path, asset_name)\<close>: the name must be a string.\<close>

definition join_name :: "world \<Rightarrow> string \<Rightarrow> pyval \<Rightarrow> exn + string" where
  "join_name w save_path asset_name =
     (case asset_name of PStr n \<Rightarrow> Inr (path_join w save_path n) | _ \<Rightarrow> Inl TypeError)"

text \<open>
  \<open>requests.get(download_url, stream=True)\<close> with the value found in the JSON: requests
  rejects what is not a URL before anything is sent.
\<close>

definition http_get_value :: "world \<Rightarrow> pyval \<Rightarrow> response py" where
  "http_get_value w url = (case url of PStr u \<Rightarrow> http_get w u | _ \<Rightarrow> py_raise InvalidURL)"

text \<open>The loop over \<open>r.iter_content(chunk_size=8192)\<close>; it returns \<open>downloaded\<close>.\<close>

fun write_chunks ::
  "world \<Rightarrow> callback \<Rightarrow> string \<Rightarrow> string \<Rightarrow> int \<Rightarrow> nat \<Rightarrow> string list \<Rightarrow> nat py" where
  "write_chunks w cb local_file asset_name total_bytes downloaded [] = py_return downloaded"
| "write_chunks w cb local_file asset_name total_bytes downloaded (chunk # rest) =
     (if chunk \<noteq> [] then
        py_bind (f_write w local_file chunk)
          (\<lambda>_. py_bind
             (if total_bytes > 0 then
                progress_callback cb
                  (min 1.0 (real (downloaded + length chunk) / real_of_int total_bytes))
                  (''Downloading '' @ asset_name @ ''...'')
              else py_return ())
             (\<lambda>_. write_chunks w cb local_file asset_name total_bytes
                     (downloaded + length chunk) rest))
      else write_chunks w cb local_file asset_name total_bytes downloaded rest)"

text \<open>The iterator ends, or raises when the transfer broke.\<close>

definition end_of_stream :: "response \<Rightarrow> unit py" where
  "end_of_stream r = (case stream_error r of None \<Rightarrow> py_return () | Some e \<Rightarrow> py_raise e)"

text \<open>
  The first part of the \<open>try\<close> block (up to \<open>total = int(...)\<close>): the asset is looked up
  and its download is requested. It yields \<open>local_file\<close>, \<open>asset_name\<close>, the streamed
  response \<open>r\<close> and \<open>total\<close>.
\<close>

definition locate_asset ::
  "world \<Rightarrow> string \<Rightarrow> string \<Rightarrow> string \<Rightarrow> callback \<Rightarrow> (string \<times> string \<times> response \<times> int) py" where
  "locate_asset w owner repo save_path cb =
     py_bind (progress_callback cb 0.05 (''Checking latest '' @ repo @ '' release...'')) (\<lambda>_.
     py_bind (http_get w
       (''https://api.github.com/repos/'' @ owner @ ''/'' @ repo @ ''/releases/latest'')) (\<lambda>response.
     py_bind (raise_for_status response) (\<lambda>_.
     py_bind (py_lift (json response)) (\<lambda>release.
     py_bind (py_lift (py_get release ''assets'' PNone)) (\<lambda>assets.
     if \<not> truthy assets then py_raise (Exception ''No release assets found.'')
     else
     py_bind (py_lift (getitem release ''assets'')) (\<lambda>assets.
     py_bind (py_lift (getitem0 assets)) (\<lambda>asset.
     py_bind (py_lift (getitem asset ''browser_download_url'')) (\<lambda>download_url.
     py_bind (py_lift (getitem asset ''name'')) (\<lambda>asset_name.
     py_bind (py_lift (join_name w save_path asset_name)) (\<lambda>local_file.
     py_bind (progress_callback cb 0.1 (''Downloading '' @ format w asset_name @ ''...'')) (\<lambda>_.
     py_bind (http_get_value w download_url) (\<lambda>r.
     py_bind (raise_for_status r) (\<lambda>_.
     py_bind (total_of r) (\<lambda>total_bytes.
     py_return (local_file, format w asset_name, r, total_bytes)))))))))))))))"

text \<open>
  The block \<open>with open(local_file, "wb") as f\<close>: the file is opened, the chunks are
  written until the stream ends or breaks, and the file is closed however the loop
  ended.
\<close>

definition write_file ::
  "world \<Rightarrow> callback \<Rightarrow> string \<Rightarrow> string \<Rightarrow> response \<Rightarrow> int \<Rightarrow> unit py" where
  "write_file w cb local_file asset_name r total_bytes =
     py_bind (open_wb w local_file) (\<lambda>_.
     on_exit
       (py_bind (write_chunks w cb local_file asset_name total_bytes 0 (chunks r)) (\<lambda>downloaded.
        end_of_stream r))
       (f_close w local_file))"

text \<open>
  The rest of the \<open>try\<close> block: the file is written, then success is reported. The
  result is \<open>Some local_file\<close>.
\<close>

definition save_asset ::
  "world \<Rightarrow> string \<Rightarrow> callback \<Rightarrow> string \<times> string \<times> response \<times> int \<Rightarrow> string option py" where
  "save_asset w repo cb = (\<lambda>(local_file, asset_name, r, total_bytes).
     py_bind (write_file w cb local_file asset_name r total_bytes) (\<lambda>_.
     py_bind (progress_callback cb 1.0 (repo @ '' release downloaded successfully.'')) (\<lambda>_.
     py_return (Some local_file))))"

definition download_latest_release_body ::
  "world \<Rightarrow> string \<Rightarrow> string \<Rightarrow> string \<Rightarrow> callback \<Rightarrow> string option py" where
  "download_latest_release_body w owner repo save_path cb =
     py_bind (locate_asset w owner repo save_path cb) (save_asset w repo cb)"

text \<open>
  The whole function: the \<open>try\<close> block under its handler. The result is
  \<open>Some local_file\<close>, or \<open>None\<close> for Python's \<open>None\<close>; \<open>Inl\<close> is an exception that leaves
  the call.
\<close>

definition download_latest_release ::
  "world \<Rightarrow> string \<Rightarrow> string \<Rightarrow> string \<Rightarrow> callback \<Rightarrow> string option py" where
  "download_latest_release w owner repo save_path cb =
     try_except (download_latest_release_body w owner repo save_path cb)
       (\<lambda>e. py_bind
          (progress_callback cb 1.0 (''Failed to download release: '' @ str_exn w e))
          (\<lambda>_. py_return None))"

section \<open>download_github_repo\<close>

text \<open>The loop that fills the in-memory buffer; it returns the buffer.\<close>

fun read_chunks ::
  "callback \<Rightarrow> string \<Rightarrow> int \<Rightarrow> nat \<Rightarrow> string \<Rightarrow> string list \<Rightarrow> string py" where
  "read_chunks cb repo_name total_bytes downloaded buffer [] = py_return buffer"
| "read_chunks cb repo_name total_bytes downloaded buffer (chunk # rest) =
     (if chunk \<noteq> [] then
        py_bind
          (if total_bytes > 0 then
             progress_callback cb
               (min 0.8 (real (downloaded + length chunk) / real_of_int total_bytes * 0.8))
               (''Downloading '' @ repo_name @ ''...'')
           else py_return ())
          (\<lambda>_. read_chunks cb repo_name total_bytes (downloaded + length chunk) (buffer @ chunk) rest)
      else read_chunks cb repo_name total_bytes downloaded buffer rest)"

text \<open>\<open>zipfile.ZipFile(buffer).extractall(save_path)\<close>\<close>

definition extract_zip :: "world \<Rightarrow> string \<Rightarrow> string \<Rightarrow> unit py" where
  "extract_zip w buffer save_path =
     (case extractall w buffer save_path of None \<Rightarrow> py_return () | Some e \<Rightarrow> py_raise e)"

fun is_dir :: "node \<Rightarrow> bool" where
  "is_dir (Dir es) = True"
| "is_dir File = False"

text \<open>
  The loop over \<open>os.listdir(save_path)\<close>, up to its \<open>break\<close>. The path
  \<open>os.path.join(save_path, item)\<close> names the child \<open>item\<close> of the listing, so the child
  found there answers \<open>os.path.isdir\<close> and is kept with the path for the later walk.
\<close>

fun find_folder ::
  "world \<Rightarrow> string \<Rightarrow> string \<Rightarrow> (string \<times> node) list \<Rightarrow> (string \<times> node) option" where
  "find_folder w save_path repo_name [] = None"
| "find_folder w save_path repo_name ((item, child) # rest) =
     (if is_dir child \<and> str_in (str_lower w repo_name) (str_lower w item)
      then Some (path_join w save_path item, child)
      else find_folder w save_path repo_name rest)"

text \<open>\<open>if not extracted_folder: extracted_folder = save_path\<close>\<close>

definition extracted_folder ::
  "world \<Rightarrow> string \<Rightarrow> string \<Rightarrow> (string \<times> node) list \<Rightarrow> string \<times> node" where
  "extracted_folder w save_path repo_name listing =
     (case find_folder w save_path repo_name listing of
        None \<Rightarrow> (save_path, Dir listing)
      | Some (path, child) \<Rightarrow> if path = [] then (save_path, Dir listing) else (path, child))"

text \<open>
  \<open>os.walk(top)\<close>: one triple (directory path, sub-directory names, file names) for the
  directory and then for every sub-directory, top down; nothing for a path that is not
  a directory.
\<close>

fun walk :: "world \<Rightarrow> string \<Rightarrow> node \<Rightarrow> (string \<times> string list \<times> string list) list" where
  "walk w top_dir File = []"
| "walk w top_dir (Dir es) =
     (top_dir, map fst (filter (\<lambda>e. is_dir (snd e)) es), map fst (filter (\<lambda>e. \<not> is_dir (snd e)) es))
     # concat (map (\<lambda>e. walk w (path_join w top_dir (fst e)) (snd e)) es)"

text \<open>The loop over the walk, up to its \<open>break\<close>: the final \<open>exe_found\<close>.\<close>

fun exe_found :: "world \<Rightarrow> (string \<times> string list \<times> string list) list \<Rightarrow> bool" where
  "exe_found w [] = False"
| "exe_found w ((root_dir, dirs, files) # rest) =
     (if ''installerready.exe'' \<in> set (map (str_lower w) files) then True
      else exe_found w rest)"

text \<open>The archive URL, built from the input string and the resolved branch.\<close>

definition zip_url :: "world \<Rightarrow> string \<Rightarrow> pyval \<Rightarrow> string" where
  "zip_url w repo_url branch =
     ''https://github.com/'' @ last (split repo_url ''github.com/'')
       @ ''/archive/refs/heads/'' @ format w branch @ ''.zip''"

text \<open>
  The download phase of the \<open>try\<close> block (up to the end of the chunk loop). It yields
  \<open>repo_name\<close> and the filled buffer.
\<close>

definition fetch_archive :: "world \<Rightarrow> string \<Rightarrow> callback \<Rightarrow> (string \<times> string) py" where
  "fetch_archive w repo_url cb =
     (let repo_name = get_repo_name repo_url in
      py_bind (get_default_branch w repo_url) (\<lambda>branch.
      py_bind (progress_callback cb 0.05
         (''Connecting to '' @ repo_name @ '' ('' @ format w branch @ '')...'')) (\<lambda>_.
      py_bind (http_get w (zip_url w repo_url branch)) (\<lambda>response.
      py_bind (raise_for_status response) (\<lambda>_.
      py_bind (total_of response) (\<lambda>total_bytes.
      py_bind (read_chunks cb repo_name total_bytes 0 [] (chunks response)) (\<lambda>buffer.
      py_bind (end_of_stream response) (\<lambda>_.
      py_return (repo_name, buffer)))))))))"

text \<open>
  The rest of the \<open>try\<close> block: extraction, folder detection, the success report and
  the search for the installer. The result is the returned dict.
\<close>

definition unpack_archive ::
  "world \<Rightarrow> string \<Rightarrow> callback \<Rightarrow> string \<times> string \<Rightarrow> (string \<times> string) list py" where
  "unpack_archive w save_path cb = (\<lambda>(repo_name, buffer).
      py_bind (progress_callback cb 0.85 (''Extracting '' @ repo_name @ ''...'')) (\<lambda>_.
      py_bind (extract_zip w buffer save_path) (\<lambda>_.
      py_bind (py_lift (listdir w save_path)) (\<lambda>listing.
      py_bind (progress_callback cb 1.0 (repo_name @ '' downloaded successfully.'')) (\<lambda>_.
      py_return
        [(''status'',
          if exe_found w (walk w (fst (extracted_folder w save_path repo_name listing))
                               (snd (extracted_folder w save_path repo_name listing)))
          then ''ready'' else ''no_installer''),
         (''path'', fst (extracted_folder w save_path repo_name listing)),
         (''repo_name'', repo_name)])))))"

definition download_github_repo_body ::
  "world \<Rightarrow> string \<Rightarrow> string \<Rightarrow> callback \<Rightarrow> (string \<times> string) list py" where
  "download_github_repo_body w repo_url save_path cb =
     py_bind (fetch_archive w repo_url cb) (unpack_archive w save_path cb)"

text \<open>The whole function; \<open>Inl\<close> is an exception that leaves the call.\<close>

definition download_github_repo ::
  "world \<Rightarrow> string \<Rightarrow> string \<Rightarrow> callback \<Rightarrow> (string \<times> string) list py" where
  "download_github_repo w repo_url save_path cb =
     try_except (download_github_repo_body w repo_url save_path cb)
       (\<lambda>e. py_bind
          (progress_callback cb 1.0 (''Failed to download '' @ repo_url @ '': '' @ str_exn w e))
          (\<lambda>_. py_return [(''status'', ''error''), (''error'', str_exn w e)]))"

text \<open>The state in which a call starts: nothing reported or requested yet.\<close>

definition start :: "(string \<rightharpoonup> string) \<Rightarrow> state" where
  "start d = \<lparr>trace = [], requests = [], disk = d, pending = []\<rparr>"

section \<open>Notions the properties are stated with\<close>

text \<open>
  The names of all files below a node, at any depth: what a recursive walk of the
  subtree can find.
\<close>

fun file_names :: "node \<Rightarrow> string set" where
  "file_names File = {}"
| "file_names (Dir es) =
     {n. (n, File) \<in> set es} \<union> (\<Union>e\<in>set es. file_names (snd e))"

text \<open>
  Case in ASCII text. On a string of ASCII characters \<open>str.lower\<close> replaces the
  letters \<open>A\<close> to \<open>Z\<close> by \<open>a\<close> to \<open>z\<close> and keeps every other character: this is
  \<open>ascii_lower\<close>. Two strings are equal up to case (\<open>caseless_eq\<close>) when they have the
  same length and, position by position, the same character or the two cases of one
  letter.
\<close>

definition ascii_letters :: "(char \<times> char) list" where
  "ascii_letters = zip ''ABCDEFGHIJKLMNOPQRSTUVWXYZ'' ''abcdefghijklmnopqrstuvwxyz''"

definition lower_char :: "char \<Rightarrow> char" where
  "lower_char c = (case map_of ascii_letters c of Some d \<Rightarrow> d | None \<Rightarrow> c)"

definition ascii_lower :: "string \<Rightarrow> string" where
  "ascii_lower s = map lower_char s"

definition same_letter :: "char \<Rightarrow> char \<Rightarrow> bool" where
  "same_letter a b = (a = b \<or> (a, b) \<in> set ascii_letters \<or> (b, a) \<in> set ascii_letters)"

definition caseless_eq :: "string \<Rightarrow> string \<Rightarrow> bool" where
  "caseless_eq a b = list_all2 same_letter a b"

text \<open>
  The disk takes every byte of the file at \<open>path\<close>: no call of \<open>f.write\<close> fails and
  closing the file writes all that is pending.
\<close>

definition disk_sound :: "world \<Rightarrow> string \<Rightarrow> bool" where
  "disk_sound w path =
     ((\<forall>dk pn c. \<exists>n. file_write w path dk pn c = Accepted n)
      \<and> (\<forall>dk pn. file_close w path dk pn = None))"

text \<open>
  A URL contains a segment of the form \<open>github.com/<owner>/<repo>\<close>: the literal, a
  non-empty owner without a slash, a slash, a non-empty repository without a slash.
\<close>

definition matches_pattern :: "string \<Rightarrow> bool" where
  "matches_pattern s =
     (\<exists>pre ow rp rest. s = pre @ ''github.com/'' @ ow @ ''/'' @ rp @ rest
        \<and> ow \<noteq> [] \<and> rp \<noteq> [] \<and> CHR ''/'' \<notin> set ow \<and> CHR ''/'' \<notin> set rp)"

text \<open>
  Reasoning about a computation: \<open>wp m Q E s\<close> holds when \<open>m\<close>, run from \<open>s\<close>, ends in
  a state and value that satisfy \<open>Q\<close>, or raises an exception that satisfies \<open>E\<close> with
  the state it leaves. \<open>keeps I m\<close>: every state \<open>m\<close> can leave satisfies \<open>I\<close> when
  the state it started from did.
\<close>

definition wp ::
  "'a py \<Rightarrow> ('a \<Rightarrow> state \<Rightarrow> bool) \<Rightarrow> (exn \<Rightarrow> state \<Rightarrow> bool) \<Rightarrow> state \<Rightarrow> bool" where
  "wp m Q E s = (case m s of (s', Inr v) \<Rightarrow> Q v s' | (s', Inl e) \<Rightarrow> E e s')"

definition keeps :: "(state \<Rightarrow> bool) \<Rightarrow> 'a py \<Rightarrow> bool" where
  "keeps I m = (\<forall>s. I s \<longrightarrow> I (fst (m s)))"

text \<open>Reports of the download phase, and reports within the unit interval.\<close>

definition low :: "(real \<times> string) list \<Rightarrow> bool" where
  "low t = (\<forall>r\<in>set t. 0 < fst r \<and> fst r \<le> 0.8)"

definition unit_range :: "(real \<times> string) list \<Rightarrow> bool" where
  "unit_range t = (\<forall>r\<in>set t. 0 \<le> fst r \<and> fst r \<le> 1)"

section \<open>A concrete environment\<close>

text \<open>
  An environment to run the functions in: the repository \<open>owner/MyRepo\<close> has the
  default branch \<open>master\<close>; its archive arrives in three chunks (one of them empty)
  with a content length of 10, and unpacks to a folder \<open>MyRepo-main\<close> that holds
  \<open>sub/dir/InstallerReady.EXE\<close>; its latest release has one asset, \<open>setup.exe\<close>, whose
  download declares a content length of 0 and breaks after two non-empty chunks.
  The repository \<open>owner/Gone\<close> is answered with status 404; every other request is
  refused. All names are ASCII text, so \<open>str.lower\<close> is \<open>ascii_lower\<close>; the file
  object keeps the small chunks in its buffer until it is closed, and the disk takes
  them all.
\<close>

definition ok_response :: response where
  "ok_response = \<lparr>status_code = 200, http_error = [], content_length = None,
     json = Inr PNone, chunks = [], stream_error = None\<rparr>"

definition demo_world :: world where
  "demo_world = \<lparr>
     requests_get = (\<lambda>k url.
       if url = ''https://api.github.com/repos/owner/MyRepo''
       then Inr (ok_response\<lparr>json := Inr (PDict [(''default_branch'', PStr ''master'')])\<rparr>)
       else if url = ''https://github.com/owner/MyRepo/archive/refs/heads/master.zip''
       then Inr (ok_response\<lparr>content_length := Some (Inr 10),
                   chunks := [''abcd'', [], ''efghij'']\<rparr>)
       else if url = ''https://api.github.com/repos/owner/MyRepo/releases/latest''
       then Inr (ok_response\<lparr>json := Inr (PDict [(''assets'', PList [PDict
                   [(''name'', PStr ''setup.exe''),
                    (''browser_download_url'', PStr ''https://dl/setup.exe'')]])])\<rparr>)
       else if url = ''https://dl/setup.exe''
       then Inr (ok_response\<lparr>content_length := Some (Inr 0), chunks := [''abcd'', [], ''ef''],
                   stream_error := Some (Raised ''connection reset'')\<rparr>)
       else if url = ''https://api.github.com/repos/owner/Gone''
       then Inr (ok_response\<lparr>status_code := 404, http_error := ''404 Client Error''\<rparr>)
       else Inl (Raised ''connection refused'')),
     exn_text = (\<lambda>e. ''error''),
     py_str = (\<lambda>v. ''None''),
     str_lower = ascii_lower,
     path_join = (\<lambda>a b. a @ ''/'' @ b),
     open_error = (\<lambda>p. None),
     file_write = (\<lambda>p dk pn c. Accepted 0),
     file_close = (\<lambda>p dk pn. None),
     extractall = (\<lambda>b p. None),
     listdir = (\<lambda>p. Inr [(''notes.txt'', File),
        (''MyRepo-main'',
           Dir [(''sub'', Dir [(''dir'', Dir [(''InstallerReady.EXE'', File)])])])])\<rparr>"

text \<open>A callback that only listens, and one whose window is gone: it raises on every call.\<close>

definition quiet_callback :: "(real \<times> string) list \<Rightarrow> exn option" where
  "quiet_callback t = None"

definition broken_callback :: "(real \<times> string) list \<Rightarrow> exn option" where
  "broken_callback t = Some (Raised ''window closed'')"

text \<open>
  A callback that shows a dialogue when the download is complete and fails there: it
  raises on the report of success and on no other.
\<close>

definition success_callback :: "(real \<times> string) list \<Rightarrow> exn option" where
  "success_callback t =
     (if t \<noteq> [] \<and> last t = (1, ''MyRepo downloaded successfully.'')
      then Some (Raised ''window closed'') else None)"

text \<open>A callback that fails on every report of fraction 1, and on no other.\<close>

definition final_callback :: "(real \<times> string) list \<Rightarrow> exn option" where
  "final_callback t =
     (if t \<noteq> [] \<and> fst (last t) = 1 then Some (Raised ''window closed'') else None)"

text \<open>
  The same environment with a destination that holds no folder named after the
  repository and no installer (a file of that name and a backup of the installer do
  not count), and with one whose listing fails.
\<close>

definition flat_world :: world where
  "flat_world = demo_world\<lparr>listdir := (\<lambda>p. Inr [(''MyRepo.txt'', File),
     (''tools'', Dir [(''InstallerReady.exe.bak'', File)])])\<rparr>"

definition unreadable_world :: world where
  "unreadable_world = demo_world\<lparr>listdir := (\<lambda>p. Inl (Raised ''Permission denied''))\<rparr>"

text \<open>The same environment with a download of the asset that does not break.\<close>

definition steady_world :: world where
  "steady_world = demo_world\<lparr>requests_get := (\<lambda>k url.
     if url = ''https://dl/setup.exe''
     then Inr (ok_response\<lparr>content_length := Some (Inr 6), chunks := [''abcd'', ''ef'']\<rparr>)
     else requests_get demo_world k url)\<rparr>"

text \<open>
  The same environment with a limit of five bytes on the size of a file: closing the
  file writes what fits and raises.
\<close>

definition small_disk_world :: world where
  "small_disk_world = demo_world\<lparr>file_close := (\<lambda>p dk pn.
     if length dk + length pn \<le> 5 then None
     else Some (5 - length dk, Raised ''File too large''))\<rparr>"

section \<open>Laws of the combinators\<close>

lemma wp_return [simp]: "wp (py_return v) Q E s = Q v s"
  by (simp add: wp_def py_return_def)

lemma wp_raise [simp]: "wp (py_raise e) Q E s = E e s"
  by (simp add: wp_def py_raise_def)

lemma wp_lift [simp]: "wp (py_lift r) Q E s = (case r of Inr v \<Rightarrow> Q v s | Inl e \<Rightarrow> E e s)"
  by (simp add: wp_def py_lift_def split: sum.splits)

lemma wp_bind [simp]: "wp (py_bind m f) Q E s = wp m (\<lambda>v. wp (f v) Q E) E s"
  by (simp add: wp_def py_bind_def split: prod.splits sum.splits)

lemma wp_try [simp]: "wp (try_except m h) Q E s = wp m Q (\<lambda>e. wp (h e) Q E) s"
  by (simp add: wp_def try_except_def split: prod.splits sum.splits)

lemma wp_if [simp]: "wp (if c then a else b) Q E s = (if c then wp a Q E s else wp b Q E s)"
  by simp

lemma wp_progress [simp]:
  "wp (progress_callback cb x msg) Q E s =
     (case cb of
        None \<Rightarrow> Q () s
      | Some f \<Rightarrow> (case f (trace s @ [(x, msg)]) of
                    None \<Rightarrow> Q () (s\<lparr>trace := trace s @ [(x, msg)]\<rparr>)
                  | Some e \<Rightarrow> E e (s\<lparr>trace := trace s @ [(x, msg)]\<rparr>)))"
  by (simp add: wp_def progress_callback_def Let_def split: option.splits)

lemma wp_http_get [simp]:
  "wp (http_get w url) Q E s =
     (case requests_get w (length (requests s)) url of
        Inr r \<Rightarrow> Q r (s\<lparr>requests := requests s @ [url]\<rparr>)
      | Inl e \<Rightarrow> E e (s\<lparr>requests := requests s @ [url]\<rparr>))"
  by (simp add: wp_def http_get_def split: sum.splits)

lemma wp_http_get_value [simp]:
  "wp (http_get_value w v) Q E s =
     (case v of PStr u \<Rightarrow> wp (http_get w u) Q E s | _ \<Rightarrow> E InvalidURL s)"
  by (simp add: http_get_value_def split: pyval.splits)

lemma wp_raise_for_status [simp]:
  "wp (raise_for_status r) Q E s =
     (if 400 \<le> status_code r \<and> status_code r < 600 then E (Raised (http_error r)) s else Q () s)"
  by (simp add: raise_for_status_def)

lemma wp_total_of [simp]:
  "wp (total_of r) Q E s =
     (case content_length r of None \<Rightarrow> Q 0 s | Some (Inr n) \<Rightarrow> Q n s | Some (Inl e) \<Rightarrow> E e s)"
  by (simp add: total_of_def split: option.splits sum.splits)

lemma wp_end_of_stream [simp]:
  "wp (end_of_stream r) Q E s = (case stream_error r of None \<Rightarrow> Q () s | Some e \<Rightarrow> E e s)"
  by (simp add: end_of_stream_def split: option.splits)

lemma wp_extract_zip [simp]:
  "wp (extract_zip w b p) Q E s = (case extractall w b p of None \<Rightarrow> Q () s | Some e \<Rightarrow> E e s)"
  by (simp add: extract_zip_def split: option.splits)

lemma wp_open_wb [simp]:
  "wp (open_wb w p) Q E s =
     (case open_error w p of
        Some e \<Rightarrow> E e s
      | None \<Rightarrow> Q () (s\<lparr>disk := (disk s)(p \<mapsto> []), pending := []\<rparr>))"
  by (simp add: wp_def open_wb_def split: option.splits)

lemma wp_f_write [simp]:
  "wp (f_write w p c) Q E s =
     (case file_write w p (on_disk s p) (pending s) c of
        Accepted n \<Rightarrow>
          Q () (s\<lparr>disk := (disk s)(p \<mapsto> on_disk s p @ take n (pending s @ c)),
                 pending := drop n (pending s @ c)\<rparr>)
      | Failed n m e \<Rightarrow>
          E e (s\<lparr>disk := (disk s)(p \<mapsto> on_disk s p @ take n (pending s @ c)),
                pending := take m (drop n (pending s @ c))\<rparr>))"
  by (simp add: wp_def f_write_def Let_def split: write_result.splits)

lemma wp_f_close [simp]:
  "wp (f_close w p) Q E s =
     (case file_close w p (on_disk s p) (pending s) of
        None \<Rightarrow> Q () (s\<lparr>disk := (disk s)(p \<mapsto> on_disk s p @ pending s), pending := []\<rparr>)
      | Some (n, e) \<Rightarrow>
          E e (s\<lparr>disk := (disk s)(p \<mapsto> on_disk s p @ take n (pending s)), pending := []\<rparr>))"
  by (simp add: wp_def f_close_def split: option.splits)

lemma wp_on_exit [simp]:
  "wp (on_exit m leave) Q E s =
     wp m (\<lambda>v. wp leave (\<lambda>_. Q v) E) (\<lambda>e. wp leave (\<lambda>_. E e) E) s"
  by (simp add: wp_def on_exit_def split: prod.splits sum.splits)

lemma wp_mono:
  "wp m Q' E' s \<Longrightarrow> (\<And>v t. Q' v t \<Longrightarrow> Q v t) \<Longrightarrow> (\<And>e t. E' e t \<Longrightarrow> E e t) \<Longrightarrow> wp m Q E s"
  by (auto simp: wp_def split: prod.splits sum.splits)

lemma wpD: "wp m Q E s \<Longrightarrow> m s = (s', r) \<Longrightarrow> (case r of Inr v \<Rightarrow> Q v s' | Inl e \<Rightarrow> E e s')"
  by (simp add: wp_def)

lemma wp_any: "(\<And>v t. Q v t) \<Longrightarrow> (\<And>e t. E e t) \<Longrightarrow> wp m Q E s"
  by (auto simp: wp_def split: prod.splits sum.splits)

lemma try_bind_Inr:
  "m s = (s1, Inr v) \<Longrightarrow> try_except (py_bind m g) h s = try_except (g v) h s1"
  by (simp add: try_except_def py_bind_def)

lemma try_bind_Inl:
  "m s = (s1, Inl e) \<Longrightarrow> try_except (py_bind m g) h s = h e s1"
  by (simp add: try_except_def py_bind_def)

subsection \<open>Invariants\<close>

lemma keepsD: "keeps I m \<Longrightarrow> I s \<Longrightarrow> m s = (t, r) \<Longrightarrow> I t"
  by (auto simp: keeps_def)

lemma keeps_return: "keeps I (py_return v)"
  by (simp add: keeps_def py_return_def)

lemma keeps_raise: "keeps I (py_raise e)"
  by (simp add: keeps_def py_raise_def)

lemma keeps_lift: "keeps I (py_lift r)"
  by (simp add: keeps_def py_lift_def)

lemma keeps_bind: "keeps I m \<Longrightarrow> (\<And>v. keeps I (f v)) \<Longrightarrow> keeps I (py_bind m f)"
  by (auto simp: keeps_def py_bind_def split: prod.splits sum.splits)

lemma keeps_try: "keeps I m \<Longrightarrow> (\<And>e. keeps I (h e)) \<Longrightarrow> keeps I (try_except m h)"
  by (auto simp: keeps_def try_except_def split: prod.splits sum.splits)

lemma keeps_case_prod: "(\<And>a b. keeps I (f a b)) \<Longrightarrow> keeps I (case p of (a, b) \<Rightarrow> f a b)"
  by (cases p) simp

lemma keeps_if: "keeps I a \<Longrightarrow> keeps I b \<Longrightarrow> keeps I (if c then a else b)"
  by simp

lemma keeps_progress:
  "(\<And>t. I t \<Longrightarrow> I (t\<lparr>trace := trace t @ [(x, m)]\<rparr>)) \<Longrightarrow> keeps I (progress_callback cb x m)"
  by (auto simp: keeps_def progress_callback_def Let_def split: option.splits)

lemma keeps_http_get:
  "(\<And>t rq. I t \<Longrightarrow> I (t\<lparr>requests := rq\<rparr>)) \<Longrightarrow> keeps I (http_get w url)"
  by (auto simp: keeps_def http_get_def)

lemma keeps_http_get_value:
  "(\<And>t rq. I t \<Longrightarrow> I (t\<lparr>requests := rq\<rparr>)) \<Longrightarrow> keeps I (http_get_value w v)"
  by (cases v) (simp_all add: http_get_value_def keeps_http_get keeps_raise)

lemma keeps_raise_for_status: "keeps I (raise_for_status r)"
  by (simp add: raise_for_status_def keeps_raise keeps_return)

lemma keeps_total_of: "keeps I (total_of r)"
  by (simp add: total_of_def keeps_lift)

lemma keeps_end_of_stream: "keeps I (end_of_stream r)"
  by (simp add: end_of_stream_def keeps_raise keeps_return split: option.splits)

lemma keeps_extract_zip: "keeps I (extract_zip w b p)"
  by (simp add: extract_zip_def keeps_raise keeps_return split: option.splits)

lemma keeps_open_wb:
  "(\<And>t dk pn. I t \<Longrightarrow> I (t\<lparr>disk := dk, pending := pn\<rparr>)) \<Longrightarrow> keeps I (open_wb w p)"
  by (auto simp: keeps_def open_wb_def split: option.splits)

lemma keeps_f_write:
  "(\<And>t dk pn. I t \<Longrightarrow> I (t\<lparr>disk := dk, pending := pn\<rparr>)) \<Longrightarrow> keeps I (f_write w p c)"
  by (auto simp: keeps_def f_write_def Let_def split: write_result.splits)

lemma keeps_f_close:
  "(\<And>t dk pn. I t \<Longrightarrow> I (t\<lparr>disk := dk, pending := pn\<rparr>)) \<Longrightarrow> keeps I (f_close w p)"
  by (auto simp: keeps_def f_close_def split: option.splits)

lemma keeps_on_exit: "keeps I m \<Longrightarrow> keeps I leave \<Longrightarrow> keeps I (on_exit m leave)"
  by (auto simp: keeps_def on_exit_def split: prod.splits sum.splits)

lemma keeps_get_default_branch:
  "(\<And>t rq. I t \<Longrightarrow> I (t\<lparr>requests := rq\<rparr>)) \<Longrightarrow> keeps I (get_default_branch w url)"
  unfolding get_default_branch_def get_default_branch_body_def
  by (auto intro!: keeps_try keeps_bind keeps_if keeps_return keeps_lift keeps_http_get
      split: option.splits)

subsection \<open>The chunk loops\<close>

lemma scaled_pos: "0 < (q::real) \<Longrightarrow> 0 < min 0.8 (q * 0.8)"
  by (simp add: min_def)

lemma clamped_pos: "0 < (q::real) \<Longrightarrow> 0 < min 1.0 q"
  by (simp add: min_def)

lemma read_chunks_inv:
  assumes step: "\<And>x m t. I t \<Longrightarrow> 0 < x \<Longrightarrow> x \<le> 0.8 \<Longrightarrow> I (t\<lparr>trace := trace t @ [(x, m)]\<rparr>)"
  shows "I s \<Longrightarrow> wp (read_chunks cb rn tb d buf cs) (\<lambda>_. I) (\<lambda>_. I) s"
proof (induction cs arbitrary: s d buf)
  case Nil
  then show ?case by simp
next
  case (Cons c cs)
  show ?case
  proof (cases "c \<noteq> [] \<and> tb > 0 \<and> cb \<noteq> None")
    case True
    then obtain f where f: "cb = Some f" by auto
    let ?x = "min 0.8 (real (d + length c) / real_of_int tb * 0.8)"
    from True have "0 < d + length c" by simp
    then have "0 < real (d + length c)" by (simp only: of_nat_0_less_iff)
    moreover from True have "0 < real_of_int tb" by simp
    ultimately have "0 < real (d + length c) / real_of_int tb" by (rule divide_pos_pos)
    then have pos: "0 < ?x" by (rule scaled_pos)
    have le: "?x \<le> 0.8" by simp
    let ?s = "s\<lparr>trace := trace s @ [(?x, ''Downloading '' @ rn @ ''...'')]\<rparr>"
    have I': "I ?s" using step[OF Cons.prems pos le] .
    show ?thesis using True f I' Cons.IH[OF I'] by (simp split: option.splits)
  next
    case False
    then show ?thesis using Cons.IH[OF Cons.prems] Cons.prems by (auto split: option.splits)
  qed
qed

lemma keeps_read_chunks:
  assumes step: "\<And>x m t. I t \<Longrightarrow> 0 < x \<Longrightarrow> x \<le> 0.8 \<Longrightarrow> I (t\<lparr>trace := trace t @ [(x, m)]\<rparr>)"
  shows "keeps I (read_chunks cb rn tb d buf cs)"
proof (induction cs arbitrary: d buf)
  case Nil
  show ?case by (simp add: keeps_return)
next
  case (Cons c cs)
  show ?case
  proof (cases "c \<noteq> [] \<and> tb > 0")
    case True
    let ?x = "min 0.8 (real (d + length c) / real_of_int tb * 0.8)"
    from True have "0 < d + length c" by simp
    then have "0 < real (d + length c)" by (simp only: of_nat_0_less_iff)
    moreover from True have "0 < real_of_int tb" by simp
    ultimately have "0 < real (d + length c) / real_of_int tb" by (rule divide_pos_pos)
    then have pos: "0 < ?x" by (rule scaled_pos)
    have le: "?x \<le> 0.8" by simp
    have "keeps I (progress_callback cb ?x (''Downloading '' @ rn @ ''...''))"
      by (rule keeps_progress) (rule step[OF _ pos le])
    then show ?thesis using True Cons.IH by (simp add: keeps_bind)
  next
    case False
    then show ?thesis using Cons.IH by (auto simp: keeps_bind keeps_return)
  qed
qed

lemma keeps_write_chunks:
  assumes step: "\<And>x m t. I t \<Longrightarrow> 0 < x \<Longrightarrow> x \<le> 1 \<Longrightarrow> I (t\<lparr>trace := trace t @ [(x, m)]\<rparr>)"
      and wr: "\<And>t dk pn. I t \<Longrightarrow> I (t\<lparr>disk := dk, pending := pn\<rparr>)"
  shows "keeps I (write_chunks w cb lf an tb d cs)"
proof (induction cs arbitrary: d)
  case Nil
  show ?case by (simp add: keeps_return)
next
  case (Cons c cs)
  have W: "keeps I (f_write w lf c)" by (rule keeps_f_write) (rule wr)
  show ?case
  proof (cases "c \<noteq> [] \<and> tb > 0")
    case True
    let ?x = "min 1.0 (real (d + length c) / real_of_int tb)"
    from True have "0 < d + length c" by simp
    then have "0 < real (d + length c)" by (simp only: of_nat_0_less_iff)
    moreover from True have "0 < real_of_int tb" by simp
    ultimately have "0 < real (d + length c) / real_of_int tb" by (rule divide_pos_pos)
    then have pos: "0 < ?x" by (rule clamped_pos)
    have le: "?x \<le> 1" by simp
    have "keeps I (progress_callback cb ?x (''Downloading '' @ an @ ''...''))"
      by (rule keeps_progress) (rule step[OF _ pos le])
    then show ?thesis using True Cons.IH W by (simp add: keeps_bind)
  next
    case False
    then show ?thesis using Cons.IH W by (auto simp: keeps_bind keeps_return)
  qed
qed

lemmas keeps_rules =
  keeps_case_prod keeps_try keeps_bind keeps_if keeps_return keeps_raise keeps_lift keeps_http_get
  keeps_http_get_value keeps_raise_for_status keeps_total_of keeps_end_of_stream
  keeps_extract_zip keeps_open_wb keeps_f_close keeps_on_exit keeps_get_default_branch
  keeps_progress

subsection \<open>Reports of the two fetchers\<close>

lemma get_default_branch_wp:
  "(\<And>v t. trace t = trace s \<Longrightarrow> disk t = disk s \<Longrightarrow> Q v t) \<Longrightarrow> wp (get_default_branch w url) Q E s"
  by (simp add: get_default_branch_def get_default_branch_body_def
      split: option.splits prod.splits sum.splits)

lemma low_Nil [simp]: "low []"
  by (simp add: low_def)

lemma low_snoc [simp]: "low (t @ [(x, m)]) \<longleftrightarrow> low t \<and> 0 < x \<and> x \<le> 0.8"
  by (auto simp: low_def)

lemma fetch_archive_name:
  "wp (fetch_archive w url cb) (\<lambda>v t. fst v = get_repo_name url) (\<lambda>_ _. True) s"
  unfolding fetch_archive_def Let_def
  apply simp
  apply (rule get_default_branch_wp)
  apply (auto split: option.splits sum.splits intro!: wp_mono[OF read_chunks_inv[where I = "\<lambda>_. True"]])
  done

lemma keeps_fetch_archive_low: "keeps (\<lambda>t. low (trace t)) (fetch_archive w url cb)"
  unfolding fetch_archive_def Let_def
  by (intro keeps_rules keeps_read_chunks) simp_all

lemma keeps_release_unit:
  "keeps (\<lambda>t. unit_range (trace t)) (download_latest_release w owner repo save_path cb)"
  unfolding download_latest_release_def download_latest_release_body_def locate_asset_def
    save_asset_def write_file_def
  by (intro keeps_rules keeps_write_chunks) (simp_all add: unit_range_def)

lemma keeps_github_unit:
  "keeps (\<lambda>t. unit_range (trace t)) (download_github_repo w url save_path cb)"
  unfolding download_github_repo_def download_github_repo_body_def fetch_archive_def
    unpack_archive_def Let_def
  by (intro keeps_rules keeps_read_chunks) (simp_all add: unit_range_def)

lemma unpack_archive_trace:
  "wp (try_except (unpack_archive w save_path (Some f) (rn, buf))
         (\<lambda>e. py_bind (progress_callback (Some f) 1.0 (msg e)) (\<lambda>_. py_return (res e))))
      (\<lambda>_ t. \<exists>R. trace t = trace s @ (0.85, ''Extracting '' @ rn @ ''...'') # R \<and> R \<noteq> [] \<and> (\<forall>r\<in>set R. fst r = 1))
      (\<lambda>_ t. \<exists>R. trace t = trace s @ (0.85, ''Extracting '' @ rn @ ''...'') # R \<and> R \<noteq> [] \<and> (\<forall>r\<in>set R. fst r = 1))
      s"
  unfolding unpack_archive_def
  by (auto split: option.splits sum.splits)

lemma save_asset_reports_one:
  "wp (save_asset w repo (Some f) v) (\<lambda>_ t. \<exists>m. (1, m) \<in> set (trace t)) (\<lambda>_ _. True) s"
proof -
  obtain lf an r tb where v: "v = (lf, an, r, tb)" by (cases v) auto
  show ?thesis unfolding v save_asset_def
    apply simp
    apply (rule wp_any)
     apply (auto split: option.splits)
    done
qed

lemma unpack_archive_reports_one:
  "wp (unpack_archive w save_path (Some f) v) (\<lambda>_ t. \<exists>m. (1, m) \<in> set (trace t)) (\<lambda>_ _. True) s"
proof -
  obtain rn buf where v: "v = (rn, buf)" by (cases v) auto
  show ?thesis unfolding v unpack_archive_def
    by (auto split: option.splits sum.splits)
qed

lemma try_reports_one:
  assumes "\<And>v t. wp (g v) (\<lambda>_ t. \<exists>m. (1, m) \<in> set (trace t)) (\<lambda>_ _. True) t"
  shows "wp (try_except (py_bind m g)
               (\<lambda>e. py_bind (progress_callback (Some f) 1.0 (msg e)) (\<lambda>_. py_return (res e))))
            (\<lambda>_ t. \<exists>m. (1, m) \<in> set (trace t)) (\<lambda>_ t. \<exists>m. (1, m) \<in> set (trace t)) s"
  apply simp
  apply (rule wp_any)
   apply (rule wp_mono[OF assms])
    apply assumption
   apply (auto split: option.splits)
  done

subsection \<open>Strings\<close>

lemma str_in_sublist: "str_in a b \<longleftrightarrow> sublist a b"
  by (induction b) (simp_all add: sublist_Cons_right)

lemma split_from_not_Nil: "split_from sep acc s \<noteq> []"
  by (induction sep acc s rule: split_from.induct) (subst split_from.simps, simp)

lemma split_from_no_occurrence:
  "\<not> sublist sep s \<Longrightarrow> split_from sep acc s = [rev acc @ s]"
proof (induction s arbitrary: acc)
  case Nil
  then show ?case by (subst split_from.simps) simp
next
  case (Cons c s)
  from Cons.prems have np: "\<not> prefix sep (c # s)" and ns: "\<not> sublist sep s"
    by (auto simp: sublist_Cons_right)
  show ?case using np Cons.IH[OF ns, of "c # acc"]
    by (subst split_from.simps) simp
qed

lemma github_no_border:
  assumes sep: "sep = ''github.com/''"
      and pre: "prefix sep (pre @ sep @ suf)" "pre \<noteq> []"
  shows "length sep \<le> length pre"
proof (rule ccontr)
  have len: "length sep = 11" by (simp add: sep)
  have inner: "sep ! k \<noteq> sep ! 0" if "0 < k" "k < 11" for k
  proof -
    from that have "k = 1 \<or> k = 2 \<or> k = 3 \<or> k = 4 \<or> k = 5 \<or> k = 6 \<or> k = 7 \<or> k = 8
      \<or> k = 9 \<or> k = 10"
      by arith
    then show ?thesis by (elim disjE) (simp_all add: sep)
  qed
  assume "\<not> length sep \<le> length pre"
  with len have k: "length pre < 11" by simp
  from pre(1) obtain rest where eq: "pre @ sep @ suf = sep @ rest"
    by (auto simp: prefix_def)
  have "(pre @ sep @ suf) ! length pre = sep ! 0"
    by (simp add: nth_append len)
  moreover have "(sep @ rest) ! length pre = sep ! length pre"
    using k by (simp add: nth_append len)
  ultimately have "sep ! length pre = sep ! 0" using eq by simp
  moreover from pre(2) have "0 < length pre" by simp
  ultimately show False using inner k by blast
qed

lemma split_from_last:
  assumes nb: "\<And>p q. prefix sep (p @ sep @ q) \<Longrightarrow> p \<noteq> [] \<Longrightarrow> length sep \<le> length p"
      and ne: "sep \<noteq> []"
      and suf: "\<not> sublist sep suf"
  shows "last (split_from sep acc (pre @ sep @ suf)) = suf"
proof (induction "length pre" arbitrary: pre acc rule: less_induct)
  case less
  show ?case
  proof (cases "prefix sep (pre @ sep @ suf)")
    case True
    show ?thesis
    proof (cases "pre = []")
      case Nil: True
      show ?thesis using Nil ne split_from_no_occurrence[OF suf, of "[]"]
        by (subst split_from.simps) simp
    next
      case False
      from nb[OF True False] have len: "length sep \<le> length pre" .
      then have d: "drop (length sep) (pre @ sep @ suf) = drop (length sep) pre @ sep @ suf"
        by simp
      from ne have pos: "0 < length sep" by simp
      have "length (drop (length sep) pre) = length pre - length sep" by simp
      also from len pos have "\<dots> < length pre" by arith
      finally have "length (drop (length sep) pre) < length pre" .
      from less.hyps[OF this, of "[]"] split_from_not_Nil[of sep "[]"] True d False ne
      show ?thesis by (subst split_from.simps) simp
    qed
  next
    case False
    then obtain c pre' where pre: "pre = c # pre'" by (cases pre) auto
    then have "length pre' < length pre" by simp
    from less.hyps[OF this, of "c # acc"] False pre
    show ?thesis by (subst split_from.simps) simp
  qed
qed

lemma zip_url_tail:
  assumes "repo_url = pre @ ''github.com/'' @ suf" and "\<not> sublist ''github.com/'' suf"
  shows "last (split repo_url ''github.com/'') = suf"
  unfolding assms(1) Spec2Isabelle.split_def
  by (rule split_from_last[OF github_no_border[OF refl] _ assms(2)]) simp_all

lemma zip_url_whole:
  assumes "\<not> sublist ''github.com/'' repo_url"
  shows "last (split repo_url ''github.com/'') = repo_url"
  using split_from_no_occurrence[OF assms, of "[]"] by (simp add: Spec2Isabelle.split_def)

lemma takeWhile_run:
  "\<forall>x\<in>set xs. P x \<Longrightarrow> \<not> P y \<Longrightarrow> takeWhile P (xs @ y # ys) = xs"
  by (induction xs) auto

lemma dropWhile_run:
  "\<forall>x\<in>set xs. P x \<Longrightarrow> \<not> P y \<Longrightarrow> dropWhile P (xs @ y # ys) = y # ys"
  by (induction xs) auto

lemma takeWhile_run_prefix:
  "\<forall>x\<in>set xs. P x \<Longrightarrow> takeWhile P (xs @ ys) = xs @ takeWhile P ys"
  by (induction xs) auto

lemma match_at_complete:
  assumes "ow \<noteq> []" "rp \<noteq> []" "CHR ''/'' \<notin> set ow" "CHR ''/'' \<notin> set rp"
  shows "match_at (''github.com/'' @ ow @ ''/'' @ rp @ rest)
         = Some (ow, rp @ takeWhile not_slash rest)"
proof -
  have ow: "\<forall>x\<in>set ow. not_slash x" and rp: "\<forall>x\<in>set rp. not_slash x"
    using assms by (auto simp: not_slash_def)
  have ns: "\<not> not_slash (CHR ''/'')" by (simp add: not_slash_def)
  have t1: "takeWhile not_slash (ow @ CHR ''/'' # rp @ rest) = ow"
    by (rule takeWhile_run[OF ow ns])
  have d1: "dropWhile not_slash (ow @ CHR ''/'' # rp @ rest) = CHR ''/'' # rp @ rest"
    by (rule dropWhile_run[OF ow ns])
  have t2: "takeWhile not_slash (rp @ rest) = rp @ takeWhile not_slash rest"
    by (rule takeWhile_run_prefix[OF rp])
  show ?thesis using assms(1,2) by (simp add: match_at_def t1 d1 t2)
qed

lemma match_at_sound:
  assumes "match_at s = Some (ow, rp)"
  shows "\<exists>rest. s = ''github.com/'' @ ow @ ''/'' @ rp @ rest
           \<and> ow \<noteq> [] \<and> rp \<noteq> [] \<and> CHR ''/'' \<notin> set ow \<and> CHR ''/'' \<notin> set rp"
proof -
  from assms obtain r where s: "s = ''github.com/'' @ r"
    by (auto simp: match_at_def prefix_def split: if_splits)
  from assms s obtain c t where
    ow: "ow = takeWhile not_slash r" "ow \<noteq> []" and
    d: "dropWhile not_slash r = c # t" and
    rp: "rp = takeWhile not_slash t" "rp \<noteq> []"
    by (auto simp: match_at_def Let_def split: if_splits list.splits)
  from d have "\<not> not_slash c" using hd_dropWhile[of not_slash r] by auto
  then have c: "c = CHR ''/''" by (simp add: not_slash_def)
  have "r = ow @ c # t" using ow(1) d takeWhile_dropWhile_id[of not_slash r] by simp
  moreover have "t = rp @ dropWhile not_slash t" using rp(1) by simp
  ultimately have "r = ow @ ''/'' @ rp @ dropWhile not_slash t" using c by simp
  moreover have "CHR ''/'' \<notin> set ow" using ow(1) set_takeWhileD[of "CHR ''/''" not_slash r]
    by (auto simp: not_slash_def)
  moreover have "CHR ''/'' \<notin> set rp" using rp(1) set_takeWhileD[of "CHR ''/''" not_slash t]
    by (auto simp: not_slash_def)
  ultimately show ?thesis using s ow(2) rp(2) by blast
qed

lemma re_search_sound:
  "re_search s = Some (ow, rp) \<Longrightarrow> matches_pattern s"
proof (induction s)
  case Nil
  then show ?case by (simp add: match_at_def)
next
  case (Cons c s)
  show ?case
  proof (cases "match_at (c # s)")
    case None
    with Cons have "matches_pattern s" by simp
    then obtain pre ow' rp' rest where "s = pre @ ''github.com/'' @ ow' @ ''/'' @ rp' @ rest"
      "ow' \<noteq> []" "rp' \<noteq> []" "CHR ''/'' \<notin> set ow'" "CHR ''/'' \<notin> set rp'"
      unfolding matches_pattern_def by blast
    then have "c # s = (c # pre) @ ''github.com/'' @ ow' @ ''/'' @ rp' @ rest
      \<and> ow' \<noteq> [] \<and> rp' \<noteq> [] \<and> CHR ''/'' \<notin> set ow' \<and> CHR ''/'' \<notin> set rp'" by simp
    then show ?thesis unfolding matches_pattern_def by blast
  next
    case (Some m)
    with Cons.prems have "match_at (c # s) = Some (ow, rp)" by simp
    from match_at_sound[OF this] obtain rest where
      "c # s = [] @ ''github.com/'' @ ow @ ''/'' @ rp @ rest
        \<and> ow \<noteq> [] \<and> rp \<noteq> [] \<and> CHR ''/'' \<notin> set ow \<and> CHR ''/'' \<notin> set rp" by auto
    then show ?thesis unfolding matches_pattern_def by blast
  qed
qed

lemma re_search_complete:
  assumes "ow \<noteq> []" "rp \<noteq> []" "CHR ''/'' \<notin> set ow" "CHR ''/'' \<notin> set rp"
  shows "re_search (pre @ ''github.com/'' @ ow @ ''/'' @ rp @ rest) \<noteq> None"
proof (induction pre)
  case Nil
  have "re_search (''github.com/'' @ ow @ ''/'' @ rp @ rest)
        = Some (ow, rp @ takeWhile not_slash rest)"
    using match_at_complete[OF assms, of rest] by simp
  then show ?case by simp
next
  case (Cons c pre)
  then show ?case by (simp split: option.splits)
qed

lemma re_search_None_iff: "re_search s = None \<longleftrightarrow> \<not> matches_pattern s"
proof
  assume "re_search s = None"
  then show "\<not> matches_pattern s"
    unfolding matches_pattern_def using re_search_complete by metis
next
  assume "\<not> matches_pattern s"
  then show "re_search s = None" using re_search_sound by (cases "re_search s") auto
qed

subsection \<open>Case in ASCII text\<close>

lemma table_lower_eq:
  assumes d1: "distinct (map fst T)" and d2: "distinct (map snd T)"
      and dj: "set (map fst T) \<inter> set (map snd T) = {}"
  shows "(case map_of T x of Some d \<Rightarrow> d | None \<Rightarrow> x) = (case map_of T y of Some d \<Rightarrow> d | None \<Rightarrow> y)
         \<longleftrightarrow> x = y \<or> (x, y) \<in> set T \<or> (y, x) \<in> set T"
proof -
  have some: "map_of T a = Some b \<longleftrightarrow> (a, b) \<in> set T" for a b
    using d1 by simp
  have none: "map_of T a = None \<Longrightarrow> (a, b) \<notin> set T" for a b
    by (simp add: some[symmetric])
  have inj: "(a, c) \<in> set T \<Longrightarrow> (b, c) \<in> set T \<Longrightarrow> a = b" for a b c
    using d2 by (metis distinct_map inj_onD snd_conv fst_conv)
  have func: "(a, b) \<in> set T \<Longrightarrow> (a, c) \<in> set T \<Longrightarrow> b = c" for a b c
    using d1 by (metis some option.inject)
  have sep: "(a, b) \<in> set T \<Longrightarrow> (b, c) \<notin> set T" for a b c
    using dj by (force simp: disjoint_iff)
  show ?thesis
  proof (cases "map_of T x")
    case None
    note nx = this
    show ?thesis
    proof (cases "map_of T y")
      case None
      with nx show ?thesis by (auto dest: none)
    next
      case (Some d)
      then have yd: "(y, d) \<in> set T" by (simp add: some)
      have "x \<noteq> y" using nx Some by auto
      moreover have "(x, y) \<notin> set T" by (rule none[OF nx])
      moreover have "(y, x) \<in> set T \<longleftrightarrow> x = d" using yd func by blast
      ultimately show ?thesis using nx Some by simp
    qed
  next
    case (Some c)
    then have xc: "(x, c) \<in> set T" by (simp add: some)
    show ?thesis
    proof (cases "map_of T y")
      case None
      have "x \<noteq> y" using None Some by auto
      moreover have "(y, x) \<notin> set T" by (rule none[OF None])
      moreover have "(x, y) \<in> set T \<longleftrightarrow> c = y" using xc func by blast
      ultimately show ?thesis using None Some by simp
    next
      case (Some d)
      then have yd: "(y, d) \<in> set T" by (simp add: some)
      have "(x, y) \<notin> set T" using yd sep by blast
      moreover have "(y, x) \<notin> set T" using xc sep by blast
      moreover have "c = d \<longleftrightarrow> x = y" using xc yd inj func by blast
      ultimately show ?thesis using \<open>map_of T x = Some c\<close> Some by simp
    qed
  qed
qed

lemma ascii_letters_distinct:
  "distinct (map fst ascii_letters)" "distinct (map snd ascii_letters)"
  "set (map fst ascii_letters) \<inter> set (map snd ascii_letters) = {}"
  by (simp_all add: ascii_letters_def)

lemma lower_char_eq: "lower_char x = lower_char y \<longleftrightarrow> same_letter x y"
  unfolding lower_char_def same_letter_def
  by (rule table_lower_eq[OF ascii_letters_distinct])

lemma ascii_lower_eq: "ascii_lower a = ascii_lower b \<longleftrightarrow> caseless_eq a b"
proof -
  have "ascii_lower a = ascii_lower b \<longleftrightarrow> list_all2 (=) (map lower_char a) (map lower_char b)"
    by (simp add: ascii_lower_def list_all2_eq)
  also have "\<dots> \<longleftrightarrow> list_all2 (\<lambda>x y. lower_char x = lower_char y) a b"
    by (simp add: list.rel_map)
  also have "\<dots> \<longleftrightarrow> caseless_eq a b"
    by (simp add: caseless_eq_def lower_char_eq)
  finally show ?thesis .
qed

lemma sublist_map:
  "sublist (map f a) (map f b) \<longleftrightarrow> (\<exists>pre mid post. b = pre @ mid @ post \<and> map f mid = map f a)"
proof
  assume "sublist (map f a) (map f b)"
  then obtain ps ss where "map f b = ps @ map f a @ ss" by (auto simp: sublist_def)
  then obtain pre r where b: "b = pre @ r" and r: "map f a @ ss = map f r"
    unfolding map_eq_append_conv by blast
  from r obtain mid post where "r = mid @ post" "map f mid = map f a"
    unfolding append_eq_map_conv by metis
  with b show "\<exists>pre mid post. b = pre @ mid @ post \<and> map f mid = map f a" by blast
next
  assume "\<exists>pre mid post. b = pre @ mid @ post \<and> map f mid = map f a"
  then obtain pre mid post where "b = pre @ mid @ post" "map f mid = map f a" by blast
  then have "map f b = map f pre @ map f a @ map f post" by simp
  then show "sublist (map f a) (map f b)" unfolding sublist_def by blast
qed

lemma caseless_sublist:
  "sublist (ascii_lower a) (ascii_lower b)
     \<longleftrightarrow> (\<exists>pre mid post. b = pre @ mid @ post \<and> caseless_eq mid a)"
  unfolding ascii_lower_def sublist_map
  by (simp add: ascii_lower_eq[unfolded ascii_lower_def])

subsection \<open>The walk\<close>

lemma not_is_dir: "\<not> is_dir c \<longleftrightarrow> c = File"
  by (cases c) auto

lemma exe_found_iff:
  "exe_found w ws \<longleftrightarrow> (\<exists>t\<in>set ws. ''installerready.exe'' \<in> str_lower w ` set (snd (snd t)))"
  by (induction w ws rule: exe_found.induct) auto

lemma walk_files:
  "(\<Union>t\<in>set (walk w p nd). set (snd (snd t))) = file_names nd"
proof (induction nd arbitrary: p)
  case File
  show ?case by simp
next
  case (Dir es)
  have "(\<Union>t\<in>set (walk w p (Dir es)). set (snd (snd t)))
        = {n. (n, File) \<in> set es}
          \<union> (\<Union>e\<in>set es. \<Union>t\<in>set (walk w (path_join w p (fst e)) (snd e)). set (snd (snd t)))"
    by (auto simp: not_is_dir) force+
  also have "\<dots> = {n. (n, File) \<in> set es} \<union> (\<Union>e\<in>set es. file_names (snd e))"
  proof -
    have "(\<Union>t\<in>set (walk w q (snd e)). set (snd (snd t))) = file_names (snd e)"
      if "e \<in> set es" for e q
    proof (rule Dir.IH[OF that])
      show "snd e \<in> Basic_BNFs.snds e" by (cases e) (simp add: snds.simps)
    qed
    then show ?thesis by simp
  qed
  finally show ?case by simp
qed

lemma image_mem_eq: "x \<in> f ` A \<longleftrightarrow> (\<exists>n\<in>A. f n = x)"
  by auto

lemma exe_found_walk:
  "exe_found w (walk w p nd) \<longleftrightarrow> (\<exists>n\<in>file_names nd. str_lower w n = ''installerready.exe'')"
proof -
  have "exe_found w (walk w p nd)
        \<longleftrightarrow> ''installerready.exe'' \<in> str_lower w ` (\<Union>t\<in>set (walk w p nd). set (snd (snd t)))"
    by (auto simp: exe_found_iff)
  also have "\<dots> \<longleftrightarrow> (\<exists>n\<in>file_names nd. str_lower w n = ''installerready.exe'')"
    unfolding walk_files by (rule image_mem_eq)
  finally show ?thesis .
qed

subsection \<open>Results of the fetchers\<close>

lemma on_disk_upd [simp]:
  "on_disk (s\<lparr>disk := (disk s)(p \<mapsto> x), pending := y\<rparr>) p = x"
  "on_disk (s\<lparr>trace := t\<rparr>) p = on_disk s p"
  by (simp_all add: on_disk_def)

lemma take_take_drop_prefix: "prefix (a @ take n xs @ take m (drop n xs)) (a @ xs)"
proof -
  have "take n xs @ take m (drop n xs) = take (n + m) xs" by (simp add: take_add)
  then show ?thesis by (simp add: take_is_prefix)
qed

lemma write_chunks_disk:
  "disk s lf \<noteq> None \<Longrightarrow> on_disk s lf @ pending s = old \<Longrightarrow>
   wp (write_chunks w cb lf an tb d cs)
      (\<lambda>_ t. disk t lf \<noteq> None \<and> on_disk t lf @ pending t = old @ concat cs)
      (\<lambda>_ t. disk t lf \<noteq> None \<and> prefix (on_disk t lf @ pending t) (old @ concat cs)
             \<and> ((\<forall>dk pn c. \<exists>n. file_write w lf dk pn c = Accepted n) \<longrightarrow>
                  cb \<noteq> None \<and> (\<exists>k\<le>length cs. on_disk t lf @ pending t = old @ concat (take k cs))))
      s"
proof (induction cs arbitrary: s d old)
  case Nil
  then show ?case by simp
next
  case (Cons c cs)
  let ?A = "\<forall>dk pn c. \<exists>n. file_write w lf dk pn c = Accepted n"
  have step: "wp (write_chunks w cb lf an tb d' cs)
      (\<lambda>_ t. disk t lf \<noteq> None \<and> on_disk t lf @ pending t = old @ concat (c # cs))
      (\<lambda>_ t. disk t lf \<noteq> None \<and> prefix (on_disk t lf @ pending t) (old @ concat (c # cs))
             \<and> (?A \<longrightarrow> cb \<noteq> None
                  \<and> (\<exists>k\<le>length (c # cs). on_disk t lf @ pending t = old @ concat (take k (c # cs))))) t"
    if a: "disk t lf \<noteq> None" and b: "on_disk t lf @ pending t = old @ c" for t d'
  proof (rule wp_mono[OF Cons.IH[OF a b]])
    fix v u assume "disk u lf \<noteq> None \<and> on_disk u lf @ pending u = (old @ c) @ concat cs"
    then show "disk u lf \<noteq> None \<and> on_disk u lf @ pending u = old @ concat (c # cs)" by simp
  next
    fix e u
    assume h: "disk u lf \<noteq> None \<and> prefix (on_disk u lf @ pending u) ((old @ c) @ concat cs)
             \<and> (?A \<longrightarrow> cb \<noteq> None
                  \<and> (\<exists>k\<le>length cs. on_disk u lf @ pending u = (old @ c) @ concat (take k cs)))"
    have "cb \<noteq> None \<and> (\<exists>k\<le>length (c # cs). on_disk u lf @ pending u = old @ concat (take k (c # cs)))"
      if ?A
    proof -
      from h that obtain k where "cb \<noteq> None" "k \<le> length cs"
        "on_disk u lf @ pending u = (old @ c) @ concat (take k cs)" by blast
      then have "Suc k \<le> length (c # cs)
        \<and> on_disk u lf @ pending u = old @ concat (take (Suc k) (c # cs))" by simp
      with \<open>cb \<noteq> None\<close> show ?thesis by blast
    qed
    with h show "disk u lf \<noteq> None \<and> prefix (on_disk u lf @ pending u) (old @ concat (c # cs))
             \<and> (?A \<longrightarrow> cb \<noteq> None
                  \<and> (\<exists>k\<le>length (c # cs). on_disk u lf @ pending u = old @ concat (take k (c # cs))))"
      by simp
  qed
  show ?case
  proof (cases "c = []")
    case True
    from step[OF Cons.prems(1), of d] Cons.prems(2) True show ?thesis by simp
  next
    case False
    show ?thesis
    proof (cases "file_write w lf (on_disk s lf) (pending s) c")
      case (Failed n m e)
      have "prefix (on_disk s lf @ take n (pending s @ c) @ take m (drop n (pending s @ c)))
              (on_disk s lf @ pending s @ c)"
        by (rule take_take_drop_prefix)
      moreover have "on_disk s lf @ pending s @ c = old @ c" using Cons.prems(2) by simp
      ultimately have "prefix (on_disk s lf @ take n (pending s @ c) @ take m (drop n (pending s @ c)))
              (old @ c @ concat cs)"
        by (metis append.assoc prefix_order.trans prefixI)
      moreover have "\<not> ?A" using Failed by (metis write_result.distinct(1))
      ultimately show ?thesis using False Failed
        by (simp del: take_append drop_append, blast)
    next
      case (Accepted n)
      let ?s = "s\<lparr>disk := (disk s)(lf \<mapsto> on_disk s lf @ take n (pending s @ c)),
                 pending := drop n (pending s @ c)\<rparr>"
      have a: "disk ?s lf \<noteq> None" by simp
      have b: "on_disk ?s lf @ pending ?s = old @ c"
        by (simp del: take_append drop_append add: Cons.prems(2)[symmetric])
      show ?thesis
      proof (cases "tb > 0 \<and> cb \<noteq> None")
        case True
        then obtain f where f: "cb = Some f" by auto
        let ?x = "min 1.0 (real (d + length c) / real_of_int tb)"
        let ?t = "?s\<lparr>trace := trace ?s @ [(?x, ''Downloading '' @ an @ ''...'')]\<rparr>"
        have a': "disk ?t lf \<noteq> None" by simp
        have b': "on_disk ?t lf @ pending ?t = old @ c" using b by simp
        have one: "\<exists>k\<le>length (c # cs). on_disk ?t lf @ pending ?t = old @ concat (take k (c # cs))"
          using b' by (intro exI[where x = 1]) simp
        have pre: "prefix (on_disk ?t lf @ pending ?t) (old @ concat (c # cs))"
          unfolding b' by simp
        from step[OF a' b', of "d + length c"] one pre a'
        show ?thesis using False Accepted True f by (simp split: option.splits)
      next
        case F2: False
        from step[OF a b, of "d + length c"]
        show ?thesis using False Accepted F2 by (auto split: option.splits)
      qed
    qed
  qed
qed

lemma write_file_disk:
  assumes opened: "open_error w lf = None"
  shows "wp (write_file w cb lf an r tb)
      (\<lambda>_ t. disk t lf = Some (concat (chunks r)))
      (\<lambda>_ t. \<exists>content. disk t lf = Some content \<and> prefix content (concat (chunks r))
          \<and> (disk_sound w lf \<longrightarrow>
                (\<exists>k\<le>length (chunks r). content = concat (take k (chunks r)))
                \<and> (cb = None \<longrightarrow> content = concat (chunks r))))
      s"
proof -
  let ?C = "concat (chunks r)"
  let ?A = "\<forall>dk pn c. \<exists>n. file_write w lf dk pn c = Accepted n"
  let ?K = "\<lambda>t. \<exists>content. disk t lf = Some content \<and> prefix content ?C
          \<and> (disk_sound w lf \<longrightarrow>
                (\<exists>k\<le>length (chunks r). content = concat (take k (chunks r)))
                \<and> (cb = None \<longrightarrow> content = ?C))"
  have failed: "wp (f_close w lf) (\<lambda>_. ?K) (\<lambda>_. ?K) t"
    if pre: "prefix (on_disk t lf @ pending t) ?C"
      and snd: "?A \<longrightarrow> (\<exists>k\<le>length (chunks r). on_disk t lf @ pending t = concat (take k (chunks r)))
                   \<and> (cb = None \<longrightarrow> on_disk t lf @ pending t = ?C)"
    for t
  proof (cases "file_close w lf (on_disk t lf) (pending t)")
    case None
    from snd have "disk_sound w lf \<longrightarrow>
        (\<exists>k\<le>length (chunks r). on_disk t lf @ pending t = concat (take k (chunks r)))
        \<and> (cb = None \<longrightarrow> on_disk t lf @ pending t = ?C)"
      by (simp add: disk_sound_def)
    with pre None show ?thesis by simp
  next
    case (Some ne)
    obtain n e where ne: "ne = (n, e)" by (cases ne)
    have "prefix (on_disk t lf @ take n (pending t)) (on_disk t lf @ pending t)"
      by (simp add: take_is_prefix)
    with pre have "prefix (on_disk t lf @ take n (pending t)) ?C"
      by (rule prefix_order.trans[rotated])
    moreover have "\<not> disk_sound w lf"
      unfolding disk_sound_def using Some by (metis option.distinct(1))
    ultimately show ?thesis using Some ne by simp
  qed
  have full: "wp (f_close w lf) (\<lambda>_ u. disk u lf = Some ?C) (\<lambda>_. ?K) t"
    if all: "on_disk t lf @ pending t = ?C" for t
  proof (cases "file_close w lf (on_disk t lf) (pending t)")
    case None
    with all show ?thesis by simp
  next
    case (Some ne)
    obtain n e where ne: "ne = (n, e)" by (cases ne)
    have "prefix (on_disk t lf @ take n (pending t)) (on_disk t lf @ pending t)"
      by (simp add: take_is_prefix)
    then have "prefix (on_disk t lf @ take n (pending t)) ?C" by (simp only: all)
    moreover have "\<not> disk_sound w lf"
      unfolding disk_sound_def using Some by (metis option.distinct(1))
    ultimately show ?thesis using Some ne by simp
  qed
  let ?s = "s\<lparr>disk := (disk s)(lf \<mapsto> []), pending := []\<rparr>"
  have a: "disk ?s lf \<noteq> None" by simp
  have b: "on_disk ?s lf @ pending ?s = []" by simp
  have "wp (write_chunks w cb lf an tb 0 (chunks r))
      (\<lambda>v. wp (end_of_stream r)
              (\<lambda>v. wp (f_close w lf) (\<lambda>_ u. disk u lf = Some ?C) (\<lambda>_. ?K))
              (\<lambda>e. wp (f_close w lf) (\<lambda>_. ?K) (\<lambda>_. ?K)))
      (\<lambda>e. wp (f_close w lf) (\<lambda>_. ?K) (\<lambda>_. ?K)) ?s"
  proof (rule wp_mono[OF write_chunks_disk[OF a b]])
    fix v t
    assume h: "disk t lf \<noteq> None \<and> on_disk t lf @ pending t = [] @ ?C"
    then have all: "on_disk t lf @ pending t = ?C" by simp
    have k: "\<exists>k\<le>length (chunks r). on_disk t lf @ pending t = concat (take k (chunks r))"
      using all by (intro exI[where x = "length (chunks r)"]) simp
    have "wp (f_close w lf) (\<lambda>_. ?K) (\<lambda>_. ?K) t"
      by (rule failed) (use all k in simp_all)
    with full[OF all]
    show "wp (end_of_stream r)
              (\<lambda>v. wp (f_close w lf) (\<lambda>_ u. disk u lf = Some ?C) (\<lambda>_. ?K))
              (\<lambda>e. wp (f_close w lf) (\<lambda>_. ?K) (\<lambda>_. ?K)) t"
      by (simp only: wp_end_of_stream split: option.splits) simp
  next
    fix e t
    assume h: "disk t lf \<noteq> None \<and> prefix (on_disk t lf @ pending t) ([] @ ?C)
             \<and> (?A \<longrightarrow> cb \<noteq> None
                  \<and> (\<exists>k\<le>length (chunks r). on_disk t lf @ pending t = [] @ concat (take k (chunks r))))"
    show "wp (f_close w lf) (\<lambda>_. ?K) (\<lambda>_. ?K) t"
      by (rule failed) (use h in auto)
  qed
  then show ?thesis unfolding write_file_def by (simp add: opened)
qed

lemma save_asset_disk:
  assumes opened: "open_error w lf = None"
  shows "wp (save_asset w repo cb (lf, an, r, tb))
      (\<lambda>_ t. disk t lf = Some (concat (chunks r)))
      (\<lambda>_ t. \<exists>content. disk t lf = Some content \<and> prefix content (concat (chunks r))
          \<and> (disk_sound w lf \<longrightarrow>
                (\<exists>k\<le>length (chunks r). content = concat (take k (chunks r)))
                \<and> (cb = None \<longrightarrow> content = concat (chunks r))))
      s"
  unfolding save_asset_def
  apply (simp only: prod.case wp_bind)
  apply (rule wp_mono[OF write_file_disk[OF opened]])
   apply (simp split: option.splits)
   apply (intro conjI impI allI exI[where x = "length (chunks r)"])
     apply simp_all
  done

lemma unpack_result:
  "wp (unpack_archive w save_path cb (rn, buf))
      (\<lambda>res t. \<exists>listing. listdir w save_path = Inr listing \<and>
         res = [(''status'',
                 if exe_found w (walk w (fst (extracted_folder w save_path rn listing))
                                      (snd (extracted_folder w save_path rn listing)))
                 then ''ready'' else ''no_installer''),
                (''path'', fst (extracted_folder w save_path rn listing)),
                (''repo_name'', rn)]
         \<and> (\<forall>f. cb = Some f \<longrightarrow> trace t \<noteq> []
                \<and> last (trace t) = (1, rn @ '' downloaded successfully.'')
                \<and> f (trace t) = None))
      (\<lambda>_ _. True) s"
  unfolding unpack_archive_def
  by (auto split: option.splits sum.splits)

lemma github_result:
  assumes run: "download_github_repo w repo_url save_path cb s = (s', Inr res)"
  shows "(\<exists>listing. listdir w save_path = Inr listing \<and>
         res = [(''status'',
                 if exe_found w (walk w
                      (fst (extracted_folder w save_path (get_repo_name repo_url) listing))
                      (snd (extracted_folder w save_path (get_repo_name repo_url) listing)))
                 then ''ready'' else ''no_installer''),
                (''path'', fst (extracted_folder w save_path (get_repo_name repo_url) listing)),
                (''repo_name'', get_repo_name repo_url)]
         \<and> (\<forall>f. cb = Some f \<longrightarrow> trace s' \<noteq> []
                \<and> last (trace s') = (1, get_repo_name repo_url @ '' downloaded successfully.'')
                \<and> f (trace s') = None))
       \<or> (\<exists>e. res = [(''status'', ''error''), (''error'', str_exn w e)])"
proof -
  let ?Q = "\<lambda>res (t::state). (\<exists>listing. listdir w save_path = Inr listing \<and>
         res = [(''status'',
                 if exe_found w (walk w
                      (fst (extracted_folder w save_path (get_repo_name repo_url) listing))
                      (snd (extracted_folder w save_path (get_repo_name repo_url) listing)))
                 then ''ready'' else ''no_installer''),
                (''path'', fst (extracted_folder w save_path (get_repo_name repo_url) listing)),
                (''repo_name'', get_repo_name repo_url)]
         \<and> (\<forall>f. cb = Some f \<longrightarrow> trace t \<noteq> []
                \<and> last (trace t) = (1, get_repo_name repo_url @ '' downloaded successfully.'')
                \<and> f (trace t) = None))
       \<or> (\<exists>e. res = [(''status'', ''error''), (''error'', str_exn w e)])"
  have "wp (download_github_repo w repo_url save_path cb) ?Q (\<lambda>_ _. True) s"
    unfolding download_github_repo_def download_github_repo_body_def
    apply (simp only: wp_try wp_bind)
    apply (rule wp_mono[OF fetch_archive_name])
    subgoal for v t
      apply (cases v)
      apply (simp only: fst_conv)
      apply (rule wp_mono[OF unpack_result])
       apply blast
      apply (auto split: option.splits)
      done
    apply (auto split: option.splits)
    done
  from wpD[OF this run] show ?thesis by simp
qed

lemma find_folder_skip:
  "\<forall>e\<in>set before. snd e = File \<or> \<not> sublist (str_lower w rn) (str_lower w (fst e)) \<Longrightarrow>
   find_folder w save_path rn (before @ rest) = find_folder w save_path rn rest"
  by (induction before) (auto simp: str_in_sublist)

lemma keeps_wp: "keeps I m \<Longrightarrow> I s \<Longrightarrow> wp m (\<lambda>_. I) (\<lambda>_. I) s"
  by (auto simp: keeps_def wp_def split: prod.splits sum.splits dest: spec[where x = s])

lemma wp_known:
  "m s = (s0, Inr v) \<Longrightarrow> wp (py_bind m f) Q E s = wp (f v) Q E s0"
  by (simp add: wp_def py_bind_def)

lemma fetch_archive_requests:
  assumes branch: "get_default_branch w repo_url s = (s0, Inr branch)"
  shows "wp (fetch_archive w repo_url cb)
           (\<lambda>_ t. requests t = requests s0 @ [zip_url w repo_url branch])
           (\<lambda>_ t. requests t = requests s0 @ [zip_url w repo_url branch]
                  \<or> (cb \<noteq> None \<and> requests t = requests s0))
           s"
  unfolding fetch_archive_def Let_def
  apply (subst wp_known[where m = "get_default_branch w repo_url" and s = s, OF branch])
  apply (simp split: option.splits sum.splits)
  apply (intro conjI impI allI)
     apply (auto intro!: wp_mono[OF read_chunks_inv[where
        I = "\<lambda>t. requests t = requests s0 @ [zip_url w repo_url branch]"]]
        split: option.splits)
  done

lemma github_requests:
  assumes branch: "get_default_branch w repo_url s = (s0, Inr branch)"
      and run: "download_github_repo w repo_url save_path cb s = (s', r)"
  shows "requests s' = requests s0 @ [zip_url w repo_url branch]
         \<or> (cb \<noteq> None \<and> requests s' = requests s0)"
proof -
  let ?I = "\<lambda>t. requests t = requests s0 @ [zip_url w repo_url branch]
                 \<or> (cb \<noteq> None \<and> requests t = requests s0)"
  have h: "keeps ?I (py_bind (progress_callback cb 1.0 msg) (\<lambda>_. py_return x))"
    for msg and x :: "(string \<times> string) list"
    by (intro keeps_rules) simp
  have u: "keeps ?I (unpack_archive w save_path cb v)" for v
    unfolding unpack_archive_def by (intro keeps_rules) simp_all
  have "wp (download_github_repo w repo_url save_path cb) (\<lambda>_. ?I) (\<lambda>_. ?I) s"
    unfolding download_github_repo_def download_github_repo_body_def
    apply (simp only: wp_try wp_bind)
    apply (rule wp_mono[OF fetch_archive_requests[OF branch]])
     apply (rule wp_mono[OF keeps_wp[OF u]])
       apply simp
      apply assumption
     apply (rule keeps_wp[OF h], assumption)
    apply (rule keeps_wp[OF h], assumption)
    done
  from wpD[OF this run] show ?thesis by (cases r) auto
qed

subsection \<open>Runs in the concrete environment\<close>

lemmas eval_simps =
  download_github_repo_def download_github_repo_body_def start_def demo_world_def
  ok_response_def try_except_def py_bind_def py_return_def py_raise_def py_lift_def
  progress_callback_def http_get_def raise_for_status_def total_of_def
  get_default_branch_def get_default_branch_body_def get_repo_name_def match_at_def
  not_slash_def replace.simps Spec2Isabelle.split_def split_from.simps format_def
  end_of_stream_def extract_zip_def extracted_folder_def ascii_lower_def lower_char_def
  ascii_letters_def
  fetch_archive_def unpack_archive_def zip_url_def quiet_callback_def broken_callback_def
  Let_def str_exn_def locate_asset_def save_asset_def download_latest_release_def
  download_latest_release_body_def join_name_def http_get_value_def open_wb_def f_write_def
  write_file_def on_exit_def f_close_def on_disk_def success_callback_def final_callback_def
  flat_world_def unreadable_world_def small_disk_world_def steady_world_def

lemma demo_fetch:
  "fetch_archive demo_world ''https://github.com/owner/MyRepo'' (Some quiet_callback)
     (start Map.empty)
   = (\<lparr>trace = [(0.05, ''Connecting to MyRepo (master)...''),
                (0.32, ''Downloading MyRepo...''), (0.8, ''Downloading MyRepo...'')],
       requests = [''https://api.github.com/repos/owner/MyRepo'',
                   ''https://github.com/owner/MyRepo/archive/refs/heads/master.zip''],
       disk = Map.empty, pending = []\<rparr>,
      Inr (''MyRepo'', ''abcdefghij''))"
  by (simp add: eval_simps)

lemma demo_run:
  "download_github_repo demo_world ''https://github.com/owner/MyRepo'' ''dest''
     (Some quiet_callback) (start Map.empty)
   = (\<lparr>trace = [(0.05, ''Connecting to MyRepo (master)...''),
                (0.32, ''Downloading MyRepo...''), (0.8, ''Downloading MyRepo...''),
                (0.85, ''Extracting MyRepo...''), (1, ''MyRepo downloaded successfully.'')],
       requests = [''https://api.github.com/repos/owner/MyRepo'',
                   ''https://github.com/owner/MyRepo/archive/refs/heads/master.zip''],
       disk = Map.empty, pending = []\<rparr>,
      Inr [(''status'', ''ready''), (''path'', ''dest/MyRepo-main''),
           (''repo_name'', ''MyRepo'')])"
  by (simp add: eval_simps)

lemma demo_refused_body:
  "download_github_repo_body demo_world ''https://github.com/owner/Other'' ''dest''
     (Some quiet_callback) (start Map.empty)
   = (\<lparr>trace = [(0.05, ''Connecting to Other (main)...'')],
       requests = [''https://api.github.com/repos/owner/Other'',
                   ''https://github.com/owner/Other/archive/refs/heads/main.zip''],
       disk = Map.empty, pending = []\<rparr>,
      Inl (Raised ''connection refused''))"
  by (simp add: eval_simps)

lemma demo_refused:
  "download_github_repo demo_world ''https://github.com/owner/Other'' ''dest''
     (Some quiet_callback) (start Map.empty)
   = (\<lparr>trace = [(0.05, ''Connecting to Other (main)...''),
                (1, ''Failed to download https://github.com/owner/Other: connection refused'')],
       requests = [''https://api.github.com/repos/owner/Other'',
                   ''https://github.com/owner/Other/archive/refs/heads/main.zip''],
       disk = Map.empty, pending = []\<rparr>,
      Inr [(''status'', ''error''), (''error'', ''connection refused'')])"
  by (simp add: eval_simps)

lemma demo_locate:
  "locate_asset demo_world ''owner'' ''MyRepo'' ''dest'' (Some quiet_callback) (start Map.empty)
   = (\<lparr>trace = [(0.05, ''Checking latest MyRepo release...''),
                (0.1, ''Downloading setup.exe...'')],
       requests = [''https://api.github.com/repos/owner/MyRepo/releases/latest'',
                   ''https://dl/setup.exe''],
       disk = Map.empty, pending = []\<rparr>,
      Inr (''dest/setup.exe'', ''setup.exe'',
           ok_response\<lparr>content_length := Some (Inr 0), chunks := [''abcd'', [], ''ef''],
             stream_error := Some (Raised ''connection reset'')\<rparr>, 0))"
  by (simp add: eval_simps)

lemma demo_release_body:
  "download_latest_release_body demo_world ''owner'' ''MyRepo'' ''dest'' (Some quiet_callback)
     (start Map.empty)
   = (\<lparr>trace = [(0.05, ''Checking latest MyRepo release...''),
                (0.1, ''Downloading setup.exe...'')],
       requests = [''https://api.github.com/repos/owner/MyRepo/releases/latest'',
                   ''https://dl/setup.exe''],
       disk = [''dest/setup.exe'' \<mapsto> ''abcdef''], pending = []\<rparr>,
      Inl (Raised ''connection reset''))"
  by (simp add: eval_simps)

lemma demo_release:
  "download_latest_release demo_world ''owner'' ''MyRepo'' ''dest'' (Some quiet_callback)
     (start Map.empty)
   = (\<lparr>trace = [(0.05, ''Checking latest MyRepo release...''),
                (0.1, ''Downloading setup.exe...''),
                (1, ''Failed to download release: connection reset'')],
       requests = [''https://api.github.com/repos/owner/MyRepo/releases/latest'',
                   ''https://dl/setup.exe''],
       disk = [''dest/setup.exe'' \<mapsto> ''abcdef''], pending = []\<rparr>,
      Inr None)"
  by (simp add: eval_simps)

lemma demo_locate_silent:
  "locate_asset demo_world ''owner'' ''MyRepo'' ''dest'' None (start Map.empty)
   = (\<lparr>trace = [],
       requests = [''https://api.github.com/repos/owner/MyRepo/releases/latest'',
                   ''https://dl/setup.exe''],
       disk = Map.empty, pending = []\<rparr>,
      Inr (''dest/setup.exe'', ''setup.exe'',
           ok_response\<lparr>content_length := Some (Inr 0), chunks := [''abcd'', [], ''ef''],
             stream_error := Some (Raised ''connection reset'')\<rparr>, 0))"
  by (simp add: eval_simps)

lemma demo_release_silent:
  "download_latest_release demo_world ''owner'' ''MyRepo'' ''dest'' None (start Map.empty)
   = (\<lparr>trace = [],
       requests = [''https://api.github.com/repos/owner/MyRepo/releases/latest'',
                   ''https://dl/setup.exe''],
       disk = [''dest/setup.exe'' \<mapsto> ''abcdef''], pending = []\<rparr>,
      Inr None)"
  by (simp add: eval_simps)

lemma demo_branch_refused:
  "get_default_branch_body demo_world ''https://github.com/owner/Other'' (start Map.empty)
   = (\<lparr>trace = [], requests = [''https://api.github.com/repos/owner/Other''],
       disk = Map.empty, pending = []\<rparr>,
      Inl (Raised ''connection refused''))"
  by (simp add: eval_simps)

lemma demo_branch:
  "get_default_branch demo_world ''https://github.com/owner/MyRepo'' (start Map.empty)
   = (\<lparr>trace = [], requests = [''https://api.github.com/repos/owner/MyRepo''],
       disk = Map.empty, pending = []\<rparr>,
      Inr (PStr ''master''))"
  by (simp add: eval_simps)

lemma demo_fetch_refused:
  "fetch_archive demo_world ''https://github.com/owner/Other'' (Some quiet_callback)
     (start Map.empty)
   = (\<lparr>trace = [(0.05, ''Connecting to Other (main)...'')],
       requests = [''https://api.github.com/repos/owner/Other'',
                   ''https://github.com/owner/Other/archive/refs/heads/main.zip''],
       disk = Map.empty, pending = []\<rparr>,
      Inl (Raised ''connection refused''))"
  by (simp add: eval_simps)

lemma demo_release_body_broken:
  "download_latest_release_body demo_world ''owner'' ''MyRepo'' ''dest'' (Some broken_callback)
     (start Map.empty)
   = (\<lparr>trace = [(0.05, ''Checking latest MyRepo release...'')], requests = [],
       disk = Map.empty, pending = []\<rparr>,
      Inl (Raised ''window closed''))"
  by (simp add: eval_simps)

lemma demo_body_broken:
  "download_github_repo_body demo_world ''https://github.com/owner/MyRepo'' ''dest''
     (Some broken_callback) (start Map.empty)
   = (\<lparr>trace = [(0.05, ''Connecting to MyRepo (master)...'')],
       requests = [''https://api.github.com/repos/owner/MyRepo''],
       disk = Map.empty, pending = []\<rparr>,
      Inl (Raised ''window closed''))"
  by (simp add: eval_simps)

lemma demo_release_body_silent:
  "download_latest_release_body demo_world ''owner'' ''MyRepo'' ''dest'' None (start Map.empty)
   = (\<lparr>trace = [],
       requests = [''https://api.github.com/repos/owner/MyRepo/releases/latest'',
                   ''https://dl/setup.exe''],
       disk = [''dest/setup.exe'' \<mapsto> ''abcdef''], pending = []\<rparr>,
      Inl (Raised ''connection reset''))"
  by (simp add: eval_simps)

lemma demo_body_run:
  "download_github_repo_body demo_world ''https://github.com/owner/MyRepo'' ''dest''
     (Some quiet_callback) (start Map.empty)
   = (\<lparr>trace = [(0.05, ''Connecting to MyRepo (master)...''),
                (0.32, ''Downloading MyRepo...''), (0.8, ''Downloading MyRepo...''),
                (0.85, ''Extracting MyRepo...''), (1, ''MyRepo downloaded successfully.'')],
       requests = [''https://api.github.com/repos/owner/MyRepo'',
                   ''https://github.com/owner/MyRepo/archive/refs/heads/master.zip''],
       disk = Map.empty, pending = []\<rparr>,
      Inr [(''status'', ''ready''), (''path'', ''dest/MyRepo-main''),
           (''repo_name'', ''MyRepo'')])"
  by (simp add: eval_simps)

lemma demo_release_body_steady:
  "download_latest_release_body steady_world ''owner'' ''MyRepo'' ''dest'' (Some quiet_callback)
     (start Map.empty)
   = (\<lparr>trace = [(0.05, ''Checking latest MyRepo release...''),
                (0.1, ''Downloading setup.exe...''),
                (2 / 3, ''Downloading setup.exe...''), (1, ''Downloading setup.exe...''),
                (1, ''MyRepo release downloaded successfully.'')],
       requests = [''https://api.github.com/repos/owner/MyRepo/releases/latest'',
                   ''https://dl/setup.exe''],
       disk = [''dest/setup.exe'' \<mapsto> ''abcdef''], pending = []\<rparr>,
      Inr (Some ''dest/setup.exe''))"
  by (simp add: eval_simps)

lemma demo_save_silent:
  "save_asset demo_world ''MyRepo'' None
     (''dest/setup.exe'', ''setup.exe'',
      ok_response\<lparr>content_length := Some (Inr 0), chunks := [''abcd'', [], ''ef''],
        stream_error := Some (Raised ''connection reset'')\<rparr>, 0)
     \<lparr>trace = [],
       requests = [''https://api.github.com/repos/owner/MyRepo/releases/latest'',
                   ''https://dl/setup.exe''],
       disk = Map.empty, pending = []\<rparr>
   = (\<lparr>trace = [],
       requests = [''https://api.github.com/repos/owner/MyRepo/releases/latest'',
                   ''https://dl/setup.exe''],
       disk = [''dest/setup.exe'' \<mapsto> ''abcdef''], pending = []\<rparr>,
      Inl (Raised ''connection reset''))"
  by (simp add: eval_simps)

lemma demo_success_raises:
  "download_github_repo demo_world ''https://github.com/owner/MyRepo'' ''dest''
     (Some success_callback) (start Map.empty)
   = (\<lparr>trace = [(0.05, ''Connecting to MyRepo (master)...''),
                (0.32, ''Downloading MyRepo...''), (0.8, ''Downloading MyRepo...''),
                (0.85, ''Extracting MyRepo...''), (1, ''MyRepo downloaded successfully.''),
                (1, ''Failed to download https://github.com/owner/MyRepo: window closed'')],
       requests = [''https://api.github.com/repos/owner/MyRepo'',
                   ''https://github.com/owner/MyRepo/archive/refs/heads/master.zip''],
       disk = Map.empty, pending = []\<rparr>,
      Inr [(''status'', ''error''), (''error'', ''window closed'')])"
  by (simp add: eval_simps)

lemma demo_flat:
  "download_github_repo flat_world ''https://github.com/owner/MyRepo'' ''dest''
     (Some quiet_callback) (start Map.empty)
   = (\<lparr>trace = [(0.05, ''Connecting to MyRepo (master)...''),
                (0.32, ''Downloading MyRepo...''), (0.8, ''Downloading MyRepo...''),
                (0.85, ''Extracting MyRepo...''), (1, ''MyRepo downloaded successfully.'')],
       requests = [''https://api.github.com/repos/owner/MyRepo'',
                   ''https://github.com/owner/MyRepo/archive/refs/heads/master.zip''],
       disk = Map.empty, pending = []\<rparr>,
      Inr [(''status'', ''no_installer''), (''path'', ''dest''), (''repo_name'', ''MyRepo'')])"
  by (simp add: eval_simps)

lemma demo_unreadable:
  "download_github_repo unreadable_world ''https://github.com/owner/MyRepo'' ''dest''
     (Some quiet_callback) (start Map.empty)
   = (\<lparr>trace = [(0.05, ''Connecting to MyRepo (master)...''),
                (0.32, ''Downloading MyRepo...''), (0.8, ''Downloading MyRepo...''),
                (0.85, ''Extracting MyRepo...''),
                (1, ''Failed to download https://github.com/owner/MyRepo: Permission denied'')],
       requests = [''https://api.github.com/repos/owner/MyRepo'',
                   ''https://github.com/owner/MyRepo/archive/refs/heads/master.zip''],
       disk = Map.empty, pending = []\<rparr>,
      Inr [(''status'', ''error''), (''error'', ''Permission denied'')])"
  by (simp add: eval_simps)

lemma demo_save:
  "save_asset demo_world ''MyRepo'' (Some quiet_callback)
     (''dest/setup.exe'', ''setup.exe'',
      ok_response\<lparr>content_length := Some (Inr 0), chunks := [''abcd'', [], ''ef''],
        stream_error := Some (Raised ''connection reset'')\<rparr>, 0)
     \<lparr>trace = [(0.05, ''Checking latest MyRepo release...''),
                (0.1, ''Downloading setup.exe...'')],
       requests = [''https://api.github.com/repos/owner/MyRepo/releases/latest'',
                   ''https://dl/setup.exe''],
       disk = Map.empty, pending = []\<rparr>
   = (\<lparr>trace = [(0.05, ''Checking latest MyRepo release...''),
                (0.1, ''Downloading setup.exe...'')],
       requests = [''https://api.github.com/repos/owner/MyRepo/releases/latest'',
                   ''https://dl/setup.exe''],
       disk = [''dest/setup.exe'' \<mapsto> ''abcdef''], pending = []\<rparr>,
      Inl (Raised ''connection reset''))"
  by (simp add: eval_simps)

lemma demo_locate_small:
  "locate_asset small_disk_world ''owner'' ''MyRepo'' ''dest'' (Some quiet_callback)
     (start Map.empty)
   = (\<lparr>trace = [(0.05, ''Checking latest MyRepo release...''),
                (0.1, ''Downloading setup.exe...'')],
       requests = [''https://api.github.com/repos/owner/MyRepo/releases/latest'',
                   ''https://dl/setup.exe''],
       disk = Map.empty, pending = []\<rparr>,
      Inr (''dest/setup.exe'', ''setup.exe'',
           ok_response\<lparr>content_length := Some (Inr 0), chunks := [''abcd'', [], ''ef''],
             stream_error := Some (Raised ''connection reset'')\<rparr>, 0))"
  by (simp add: eval_simps)

lemma demo_save_small:
  "save_asset small_disk_world ''MyRepo'' (Some quiet_callback)
     (''dest/setup.exe'', ''setup.exe'',
      ok_response\<lparr>content_length := Some (Inr 0), chunks := [''abcd'', [], ''ef''],
        stream_error := Some (Raised ''connection reset'')\<rparr>, 0)
     \<lparr>trace = [(0.05, ''Checking latest MyRepo release...''),
                (0.1, ''Downloading setup.exe...'')],
       requests = [''https://api.github.com/repos/owner/MyRepo/releases/latest'',
                   ''https://dl/setup.exe''],
       disk = Map.empty, pending = []\<rparr>
   = (\<lparr>trace = [(0.05, ''Checking latest MyRepo release...''),
                (0.1, ''Downloading setup.exe...'')],
       requests = [''https://api.github.com/repos/owner/MyRepo/releases/latest'',
                   ''https://dl/setup.exe''],
       disk = [''dest/setup.exe'' \<mapsto> ''abcde''], pending = []\<rparr>,
      Inl (Raised ''File too large''))"
  by (simp add: eval_simps)

lemma demo_release_small:
  "download_latest_release small_disk_world ''owner'' ''MyRepo'' ''dest'' (Some quiet_callback)
     (start Map.empty)
   = (\<lparr>trace = [(0.05, ''Checking latest MyRepo release...''),
                (0.1, ''Downloading setup.exe...''),
                (1, ''Failed to download release: File too large'')],
       requests = [''https://api.github.com/repos/owner/MyRepo/releases/latest'',
                   ''https://dl/setup.exe''],
       disk = [''dest/setup.exe'' \<mapsto> ''abcde''], pending = []\<rparr>,
      Inr None)"
  by (simp add: eval_simps)

lemma demo_locate_final:
  "locate_asset demo_world ''owner'' ''MyRepo'' ''dest'' (Some final_callback) (start Map.empty)
   = (\<lparr>trace = [(0.05, ''Checking latest MyRepo release...''),
                (0.1, ''Downloading setup.exe...'')],
       requests = [''https://api.github.com/repos/owner/MyRepo/releases/latest'',
                   ''https://dl/setup.exe''],
       disk = Map.empty, pending = []\<rparr>,
      Inr (''dest/setup.exe'', ''setup.exe'',
           ok_response\<lparr>content_length := Some (Inr 0), chunks := [''abcd'', [], ''ef''],
             stream_error := Some (Raised ''connection reset'')\<rparr>, 0))"
  by (simp add: eval_simps)

lemma demo_save_final:
  "save_asset demo_world ''MyRepo'' (Some final_callback)
     (''dest/setup.exe'', ''setup.exe'',
      ok_response\<lparr>content_length := Some (Inr 0), chunks := [''abcd'', [], ''ef''],
        stream_error := Some (Raised ''connection reset'')\<rparr>, 0)
     \<lparr>trace = [(0.05, ''Checking latest MyRepo release...''),
                (0.1, ''Downloading setup.exe...'')],
       requests = [''https://api.github.com/repos/owner/MyRepo/releases/latest'',
                   ''https://dl/setup.exe''],
       disk = Map.empty, pending = []\<rparr>
   = (\<lparr>trace = [(0.05, ''Checking latest MyRepo release...''),
                (0.1, ''Downloading setup.exe...'')],
       requests = [''https://api.github.com/repos/owner/MyRepo/releases/latest'',
                   ''https://dl/setup.exe''],
       disk = [''dest/setup.exe'' \<mapsto> ''abcdef''], pending = []\<rparr>,
      Inl (Raised ''connection reset''))"
  by (simp add: eval_simps)

lemma demo_release_final:
  "download_latest_release demo_world ''owner'' ''MyRepo'' ''dest'' (Some final_callback)
     (start Map.empty)
   = (\<lparr>trace = [(0.05, ''Checking latest MyRepo release...''),
                (0.1, ''Downloading setup.exe...''),
                (1, ''Failed to download release: connection reset'')],
       requests = [''https://api.github.com/repos/owner/MyRepo/releases/latest'',
                   ''https://dl/setup.exe''],
       disk = [''dest/setup.exe'' \<mapsto> ''abcdef''], pending = []\<rparr>,
      Inl (Raised ''window closed''))"
  by (simp add: eval_simps)

section \<open>Exceptions at the boundary of the fetchers\<close>




section \<open>Repository names\<close>

text \<open>
  C2. Name extraction is meant to return the repository segment with a trailing
  \<open>.git\<close> removed and nothing else changed. \<open>str.replace\<close> removes every occurrence
  of \<open>.git\<close>, so the name of a GitHub Pages repository loses the \<open>.git\<close> inside
  \<open>.github\<close>: the function returns \<open>userhub.io\<close> for the repository
  \<open>user.github.io\<close>.
\<close>

theorem get_repo_name_inner_git:
  "get_repo_name ''https://github.com/user/user.github.io'' = ''userhub.io''"
  by (simp add: get_repo_name_def match_at_def not_slash_def replace.simps)

section \<open>The record returned by the archive fetcher\<close>

text \<open>
  C3. Every value that \<open>download_github_repo\<close> returns has a \<open>status\<close> field whose
  value is \<open>ready\<close>, \<open>no_installer\<close> or \<open>error\<close>. With \<open>ready\<close> or \<open>no_installer\<close> the
  record carries exactly the fields \<open>status\<close>, \<open>path\<close> and \<open>repo_name\<close> (the derived
  name); with \<open>error\<close> it carries exactly \<open>status\<close> and the message \<open>error\<close>.
\<close>

theorem result_record_shape:
  assumes run: "download_github_repo w repo_url save_path cb s = (s', Inr res)"
  shows "(map_of res ''status'' = Some ''ready'' \<or> map_of res ''status'' = Some ''no_installer''
          \<or> map_of res ''status'' = Some ''error'')
       \<and> (map_of res ''status'' = Some ''ready'' \<or> map_of res ''status'' = Some ''no_installer''
            \<longrightarrow> (\<exists>p. map_of res ''path'' = Some p)
                \<and> map_of res ''repo_name'' = Some (get_repo_name repo_url)
                \<and> dom (map_of res) = {''status'', ''path'', ''repo_name''})
       \<and> (map_of res ''status'' = Some ''error''
            \<longrightarrow> (\<exists>m. map_of res ''error'' = Some m)
                \<and> dom (map_of res) = {''status'', ''error''})"
  using github_result[OF run] by (elim disjE exE conjE) (simp_all add: dom_def, auto)

theorem result_record_shape_witness:
  "(\<exists>res. snd (download_github_repo demo_world ''https://github.com/owner/MyRepo'' ''dest''
              (Some quiet_callback) (start Map.empty)) = Inr res
        \<and> map_of res ''status'' = Some ''ready''
        \<and> map_of res ''path'' = Some ''dest/MyRepo-main''
        \<and> map_of res ''repo_name'' = Some ''MyRepo'')
   \<and> (\<exists>res. snd (download_github_repo demo_world ''https://github.com/owner/Other'' ''dest''
              (Some quiet_callback) (start Map.empty)) = Inr res
        \<and> map_of res ''status'' = Some ''error''
        \<and> map_of res ''error'' = Some ''connection refused'')"
  using result_record_shape[OF demo_run] result_record_shape[OF demo_refused]
  by (simp add: demo_run demo_refused)

section \<open>Installer detection\<close>




section \<open>Detection of the extracted folder\<close>

text \<open>
  C5. Folder detection goes through the children of \<open>save_path\<close> in listing order
  and selects the first child that is a directory and whose name, lowered by
  \<open>str.lower\<close>, contains the lowered repository name as a contiguous substring:
  children before it that are files, or whose names do not contain the name, are
  passed over, and children after it are not looked at. The extracted folder is then
  that child, at the path \<open>os.path.join(save_path, name)\<close> (Python falls back to
  \<open>save_path\<close> when that path is the empty string, which \<open>os.path.join\<close> never returns
  for a listed name). When no child is a directory with such a name, \<open>save_path\<close>
  itself is the extracted folder. For names that are ASCII text, containing the
  lowered name means containing a substring equal to the name up to case.
\<close>

theorem folder_detection:
  "(sublist (str_lower w repo_name) (str_lower w item)
      \<and> (\<forall>e\<in>set before. snd e = File
            \<or> \<not> sublist (str_lower w repo_name) (str_lower w (fst e)))
    \<longrightarrow> extracted_folder w save_path repo_name (before @ (item, Dir sub) # after)
        = (if path_join w save_path item = []
           then (save_path, Dir (before @ (item, Dir sub) # after))
           else (path_join w save_path item, Dir sub)))
   \<and> ((\<forall>e\<in>set listing. snd e = File
            \<or> \<not> sublist (str_lower w repo_name) (str_lower w (fst e)))
    \<longrightarrow> extracted_folder w save_path repo_name listing = (save_path, Dir listing))
   \<and> (str_lower w repo_name = ascii_lower repo_name \<and> str_lower w item = ascii_lower item
    \<longrightarrow> (sublist (str_lower w repo_name) (str_lower w item)
         \<longleftrightarrow> (\<exists>pre mid post. item = pre @ mid @ post \<and> caseless_eq mid repo_name)))"
proof (intro conjI impI)
  assume a: "sublist (str_lower w repo_name) (str_lower w item)
      \<and> (\<forall>e\<in>set before. snd e = File
            \<or> \<not> sublist (str_lower w repo_name) (str_lower w (fst e)))"
  then have "find_folder w save_path repo_name (before @ (item, Dir sub) # after)
             = find_folder w save_path repo_name ((item, Dir sub) # after)"
    by (simp add: find_folder_skip)
  with a show "extracted_folder w save_path repo_name (before @ (item, Dir sub) # after)
        = (if path_join w save_path item = []
           then (save_path, Dir (before @ (item, Dir sub) # after))
           else (path_join w save_path item, Dir sub))"
    by (simp add: extracted_folder_def str_in_sublist)
next
  assume "\<forall>e\<in>set listing. snd e = File
            \<or> \<not> sublist (str_lower w repo_name) (str_lower w (fst e))"
  then have "find_folder w save_path repo_name (listing @ []) = find_folder w save_path repo_name []"
    by (rule find_folder_skip)
  then show "extracted_folder w save_path repo_name listing = (save_path, Dir listing)"
    by (simp add: extracted_folder_def)
next
  assume "str_lower w repo_name = ascii_lower repo_name \<and> str_lower w item = ascii_lower item"
  then show "sublist (str_lower w repo_name) (str_lower w item)
         \<longleftrightarrow> (\<exists>pre mid post. item = pre @ mid @ post \<and> caseless_eq mid repo_name)"
    by (simp only: caseless_sublist)
qed

text \<open>
  The spec's example: the only sub-directory is \<open>MyRepo-main\<close>, the name is \<open>MyRepo\<close>,
  and that sub-directory is selected. In a destination that lists the file
  \<open>MyRepo.txt\<close>, the directories \<open>docs\<close>, \<open>myrepo-MAIN\<close> and \<open>MyRepo-old\<close>, the
  directory \<open>myrepo-MAIN\<close> is selected: the file is passed over although its name
  contains the name, the case of the letters does not count, and the later match is
  not looked at. With a name that no directory contains, the destination itself is the
  extracted folder.
\<close>

theorem folder_detection_witness:
  "extracted_folder demo_world ''dest'' ''MyRepo'' [(''MyRepo-main'', Dir [])]
   = (''dest/MyRepo-main'', Dir [])
   \<and> extracted_folder demo_world ''dest'' ''MyRepo''
     [(''MyRepo.txt'', File), (''docs'', Dir []), (''myrepo-MAIN'', Dir [(''README'', File)]),
      (''MyRepo-old'', Dir [])]
   = (''dest/myrepo-MAIN'', Dir [(''README'', File)])
   \<and> extracted_folder demo_world ''dest'' ''Other''
     [(''MyRepo.txt'', File), (''docs'', Dir []), (''myrepo-MAIN'', Dir [(''README'', File)]),
      (''MyRepo-old'', Dir [])]
   = (''dest'', Dir [(''MyRepo.txt'', File), (''docs'', Dir []),
        (''myrepo-MAIN'', Dir [(''README'', File)]), (''MyRepo-old'', Dir [])])
   \<and> sublist (str_lower demo_world ''MyRepo'') (str_lower demo_world ''myrepo-MAIN'')
   \<and> caseless_eq ''myrepo'' ''MyRepo''"
proof -
  have lw: "str_lower demo_world = ascii_lower" by (simp add: demo_world_def)
  have pj: "path_join demo_world ''dest'' ''MyRepo-main'' = ''dest/MyRepo-main''"
           "path_join demo_world ''dest'' ''myrepo-MAIN'' = ''dest/myrepo-MAIN''"
    by (simp_all add: demo_world_def)
  have m: "sublist (ascii_lower ''MyRepo'') (ascii_lower ''MyRepo-main'')"
          "sublist (ascii_lower ''MyRepo'') (ascii_lower ''myrepo-MAIN'')"
    by (simp_all add: str_in_sublist[symmetric] ascii_lower_def lower_char_def ascii_letters_def)
  have n: "\<not> sublist (ascii_lower ''MyRepo'') (ascii_lower ''docs'')"
          "\<not> sublist (ascii_lower ''Other'') (ascii_lower ''MyRepo.txt'')"
          "\<not> sublist (ascii_lower ''Other'') (ascii_lower ''docs'')"
          "\<not> sublist (ascii_lower ''Other'') (ascii_lower ''myrepo-MAIN'')"
          "\<not> sublist (ascii_lower ''Other'') (ascii_lower ''MyRepo-old'')"
    by (simp_all add: str_in_sublist[symmetric] ascii_lower_def lower_char_def ascii_letters_def)
  have c: "caseless_eq ''myrepo'' ''MyRepo''"
    by (simp add: caseless_eq_def same_letter_def ascii_letters_def)
  have "extracted_folder demo_world ''dest'' ''MyRepo'' ([] @ (''MyRepo-main'', Dir []) # [])
        = (if path_join demo_world ''dest'' ''MyRepo-main'' = []
           then (''dest'', Dir ([] @ (''MyRepo-main'', Dir []) # []))
           else (path_join demo_world ''dest'' ''MyRepo-main'', Dir []))"
    by (rule folder_detection[THEN conjunct1, rule_format]) (simp add: lw m)
  then have one: "extracted_folder demo_world ''dest'' ''MyRepo'' [(''MyRepo-main'', Dir [])]
             = (''dest/MyRepo-main'', Dir [])"
    by (simp add: pj)
  have "extracted_folder demo_world ''dest'' ''MyRepo''
          ([(''MyRepo.txt'', File), (''docs'', Dir [])]
           @ (''myrepo-MAIN'', Dir [(''README'', File)]) # [(''MyRepo-old'', Dir [])])
        = (if path_join demo_world ''dest'' ''myrepo-MAIN'' = []
           then (''dest'', Dir ([(''MyRepo.txt'', File), (''docs'', Dir [])]
                  @ (''myrepo-MAIN'', Dir [(''README'', File)]) # [(''MyRepo-old'', Dir [])]))
           else (path_join demo_world ''dest'' ''myrepo-MAIN'', Dir [(''README'', File)]))"
    by (rule folder_detection[THEN conjunct1, rule_format]) (simp add: lw m n)
  then have two: "extracted_folder demo_world ''dest'' ''MyRepo''
     [(''MyRepo.txt'', File), (''docs'', Dir []), (''myrepo-MAIN'', Dir [(''README'', File)]),
      (''MyRepo-old'', Dir [])]
   = (''dest/myrepo-MAIN'', Dir [(''README'', File)])"
    by (simp add: pj)
  have three: "extracted_folder demo_world ''dest'' ''Other''
     [(''MyRepo.txt'', File), (''docs'', Dir []), (''myrepo-MAIN'', Dir [(''README'', File)]),
      (''MyRepo-old'', Dir [])]
   = (''dest'', Dir [(''MyRepo.txt'', File), (''docs'', Dir []),
        (''myrepo-MAIN'', Dir [(''README'', File)]), (''MyRepo-old'', Dir [])])"
    by (rule folder_detection[THEN conjunct2, THEN conjunct1, rule_format]) (auto simp: lw n)
  have ex: "\<exists>pre mid post. ''myrepo-MAIN'' = pre @ mid @ post \<and> caseless_eq mid ''MyRepo''"
    by (rule exI[where x = "[]"], rule exI[where x = "''myrepo''"],
        rule exI[where x = "''-MAIN''"]) (simp add: c)
  have "sublist (str_lower demo_world ''MyRepo'') (str_lower demo_world ''myrepo-MAIN'')
        \<longleftrightarrow> (\<exists>pre mid post. ''myrepo-MAIN'' = pre @ mid @ post \<and> caseless_eq mid ''MyRepo'')"
    by (rule folder_detection[THEN conjunct2, THEN conjunct2, rule_format]) (simp add: lw)
  with ex have four: "sublist (str_lower demo_world ''MyRepo'') (str_lower demo_world ''myrepo-MAIN'')"
    by (rule iffD2[rotated])
  from one two three four c show ?thesis by (intro conjI)
qed

section \<open>Progress fractions\<close>

text \<open>
  C6. In every call of either fetcher, every invocation of the progress callback
  passes a fraction in the interval from 0 to 1; and when a callback is supplied it is
  invoked with fraction 1 before the call ends, whatever the response declares as its
  content length (0, absent, or anything else) and whether the call succeeds, returns
  a captured failure or ends in an exception.
\<close>

theorem progress_fractions_in_unit_range:
  "(download_latest_release w owner repo save_path cb (start d) = (s', r) \<longrightarrow>
      (\<forall>p\<in>set (trace s'). 0 \<le> fst p \<and> fst p \<le> 1) \<and>
      (cb \<noteq> None \<longrightarrow> (\<exists>m. (1, m) \<in> set (trace s'))))
   \<and> (download_github_repo w repo_url save_path cb (start d) = (s'', r') \<longrightarrow>
      (\<forall>p\<in>set (trace s''). 0 \<le> fst p \<and> fst p \<le> 1) \<and>
      (cb \<noteq> None \<longrightarrow> (\<exists>m. (1, m) \<in> set (trace s''))))"
proof (intro conjI impI)
  assume run: "download_latest_release w owner repo save_path cb (start d) = (s', r)"
  have "unit_range (trace (start d))" by (simp add: start_def unit_range_def)
  from keepsD[OF keeps_release_unit this run]
  show "\<forall>p\<in>set (trace s'). 0 \<le> fst p \<and> fst p \<le> 1" by (simp add: unit_range_def)
  assume "cb \<noteq> None"
  then obtain f where f: "cb = Some f" by auto
  have "wp (download_latest_release w owner repo save_path (Some f))
          (\<lambda>_ t. \<exists>m. (1, m) \<in> set (trace t)) (\<lambda>_ t. \<exists>m. (1, m) \<in> set (trace t)) (start d)"
    unfolding download_latest_release_def download_latest_release_body_def
    by (rule try_reports_one) (rule save_asset_reports_one)
  from wpD[OF this run[unfolded f]] show "\<exists>m. (1, m) \<in> set (trace s')"
    by (cases r) auto
next
  assume run: "download_github_repo w repo_url save_path cb (start d) = (s'', r')"
  have "unit_range (trace (start d))" by (simp add: start_def unit_range_def)
  from keepsD[OF keeps_github_unit this run]
  show "\<forall>p\<in>set (trace s''). 0 \<le> fst p \<and> fst p \<le> 1" by (simp add: unit_range_def)
  assume "cb \<noteq> None"
  then obtain f where f: "cb = Some f" by auto
  have "wp (download_github_repo w repo_url save_path (Some f))
          (\<lambda>_ t. \<exists>m. (1, m) \<in> set (trace t)) (\<lambda>_ t. \<exists>m. (1, m) \<in> set (trace t)) (start d)"
    unfolding download_github_repo_def download_github_repo_body_def
    by (rule try_reports_one) (rule unpack_archive_reports_one)
  from wpD[OF this run[unfolded f]] show "\<exists>m. (1, m) \<in> set (trace s'')"
    by (cases r') auto
qed

text \<open>
  The release download of the concrete environment declares a content length of 0 and
  fails; the archive download succeeds. Both report fraction 1.
\<close>

theorem progress_fractions_in_unit_range_witness:
  "snd (download_latest_release demo_world ''owner'' ''MyRepo'' ''dest'' (Some quiet_callback)
          (start Map.empty)) = Inr None
   \<and> list_all (\<lambda>p. 0 \<le> fst p \<and> fst p \<le> 1)
       (trace (fst (download_latest_release demo_world ''owner'' ''MyRepo'' ''dest''
          (Some quiet_callback) (start Map.empty))))
   \<and> (\<exists>m. (1, m) \<in> set (trace (fst (download_latest_release demo_world ''owner'' ''MyRepo''
          ''dest'' (Some quiet_callback) (start Map.empty)))))
   \<and> list_all (\<lambda>p. 0 \<le> fst p \<and> fst p \<le> 1)
       (trace (fst (download_github_repo demo_world ''https://github.com/owner/MyRepo'' ''dest''
          (Some quiet_callback) (start Map.empty))))
   \<and> (\<exists>m. (1, m) \<in> set (trace (fst (download_github_repo demo_world
          ''https://github.com/owner/MyRepo'' ''dest'' (Some quiet_callback) (start Map.empty)))))"
  using progress_fractions_in_unit_range[where w = demo_world and owner = "''owner''"
      and repo = "''MyRepo''" and save_path = "''dest''" and cb = "Some quiet_callback"
      and d = Map.empty and repo_url = "''https://github.com/owner/MyRepo''"
      and s' = "fst (download_latest_release demo_world ''owner'' ''MyRepo'' ''dest''
          (Some quiet_callback) (start Map.empty))"
      and r = "snd (download_latest_release demo_world ''owner'' ''MyRepo'' ''dest''
          (Some quiet_callback) (start Map.empty))"
      and s'' = "fst (download_github_repo demo_world ''https://github.com/owner/MyRepo''
          ''dest'' (Some quiet_callback) (start Map.empty))"
      and r' = "snd (download_github_repo demo_world ''https://github.com/owner/MyRepo''
          ''dest'' (Some quiet_callback) (start Map.empty))"]
  by (simp add: demo_release demo_run list_all_iff)

section \<open>The download phase and the extraction report\<close>

text \<open>
  C7, as the code has it. Every report made during the download phase (the part of
  the call before extraction begins) has a fraction of at most 0.8. In every call
  with a callback whose download phase completes, the next invocation reports 0.85
  (\<open>Extracting ...\<close>), and every later invocation, of which there is at least one,
  reports 1. A call that fails during the download phase goes to the handler: with a
  callback its one further invocation is the failure report of fraction 1, and 0.85
  is never reported.
\<close>

theorem download_phase_then_extraction:
  assumes fetch: "fetch_archive w repo_url cb (start d) = (s1, r1)"
      and run: "download_github_repo w repo_url save_path cb (start d) = (s', r)"
  shows "(\<forall>p\<in>set (trace s1). fst p \<le> 0.8) \<and>
         (\<forall>f v. cb = Some f \<and> r1 = Inr v \<longrightarrow>
            (\<exists>R. trace s' =
                   trace s1 @ (0.85, ''Extracting '' @ get_repo_name repo_url @ ''...'') # R
                 \<and> R \<noteq> [] \<and> (\<forall>p\<in>set R. fst p = 1))) \<and>
         (\<forall>f e. cb = Some f \<and> r1 = Inl e \<longrightarrow>
            trace s' = trace s1 @
              [(1, ''Failed to download '' @ repo_url @ '': '' @ str_exn w e)]) \<and>
         (\<forall>e. r1 = Inl e \<longrightarrow> (\<forall>p\<in>set (trace s'). fst p \<noteq> 0.85))"
proof (intro conjI allI impI)
  have "low (trace (start d))" by (simp add: start_def)
  from keepsD[OF keeps_fetch_archive_low this fetch]
  have "low (trace s1)" .
  then show "\<forall>p\<in>set (trace s1). fst p \<le> 0.8" by (simp add: low_def)
next
  fix f v assume a: "cb = Some f \<and> r1 = Inr v"
  from wpD[OF fetch_archive_name fetch] a obtain buf where v: "v = (get_repo_name repo_url, buf)"
    by (cases v) auto
  from run a fetch
  have "try_except (unpack_archive w save_path (Some f) (get_repo_name repo_url, buf))
       (\<lambda>e. py_bind
          (progress_callback (Some f) 1.0
             (''Failed to download '' @ repo_url @ '': '' @ str_exn w e))
          (\<lambda>_. py_return [(''status'', ''error''), (''error'', str_exn w e)])) s1 = (s', r)"
    by (simp add: download_github_repo_def download_github_repo_body_def try_bind_Inr v)
  from wpD[OF unpack_archive_trace this]
  show "\<exists>R. trace s' = trace s1 @ (0.85, ''Extracting '' @ get_repo_name repo_url @ ''...'') # R
                 \<and> R \<noteq> [] \<and> (\<forall>p\<in>set R. fst p = 1)"
    by (cases r) auto
next
  fix f e assume a: "cb = Some f \<and> r1 = Inl e"
  from run a fetch
  have "py_bind
          (progress_callback (Some f) 1.0
             (''Failed to download '' @ repo_url @ '': '' @ str_exn w e))
          (\<lambda>_. py_return [(''status'', ''error''), (''error'', str_exn w e)]) s1 = (s', r)"
    by (simp add: download_github_repo_def download_github_repo_body_def try_bind_Inl)
  then show "trace s' = trace s1 @ [(1, ''Failed to download '' @ repo_url @ '': '' @ str_exn w e)]"
    by (auto simp: py_bind_def progress_callback_def py_return_def Let_def split: option.splits)
next
  fix e assume a: "r1 = Inl e"
  have "low (trace (start d))" by (simp add: start_def)
  from keepsD[OF keeps_fetch_archive_low this fetch]
  have l: "low (trace s1)" .
  from run a fetch
  have "py_bind
          (progress_callback cb 1.0
             (''Failed to download '' @ repo_url @ '': '' @ str_exn w e))
          (\<lambda>_. py_return [(''status'', ''error''), (''error'', str_exn w e)]) s1 = (s', r)"
    by (simp add: download_github_repo_def download_github_repo_body_def try_bind_Inl)
  then have t: "trace s' = trace s1
        \<or> trace s' = trace s1 @ [(1, ''Failed to download '' @ repo_url @ '': '' @ str_exn w e)]"
    by (auto simp: py_bind_def progress_callback_def py_return_def Let_def split: option.splits)
  show "\<forall>p\<in>set (trace s'). fst p \<noteq> 0.85"
  proof
    fix p assume "p \<in> set (trace s')"
    with t have "p \<in> set (trace s1) \<or> fst p = 1" by auto
    then show "fst p \<noteq> 0.85"
    proof
      assume "p \<in> set (trace s1)"
      with l have "fst p \<le> 0.8" by (simp add: low_def)
      then show ?thesis by simp
    next
      assume "fst p = 1"
      then show ?thesis by simp
    qed
  qed
qed

text \<open>
  In the concrete environment the archive of \<open>owner/MyRepo\<close> is downloaded and
  extracted, and the archive request for \<open>owner/Other\<close> is refused.
\<close>

theorem download_phase_then_extraction_witness:
  "snd (fetch_archive demo_world ''https://github.com/owner/MyRepo'' (Some quiet_callback)
          (start Map.empty)) = Inr (''MyRepo'', ''abcdefghij'')
   \<and> list_all (\<lambda>p. fst p \<le> 0.8)
       (trace (fst (fetch_archive demo_world ''https://github.com/owner/MyRepo''
          (Some quiet_callback) (start Map.empty))))
   \<and> (\<exists>R. trace (fst (download_github_repo demo_world ''https://github.com/owner/MyRepo''
              ''dest'' (Some quiet_callback) (start Map.empty)))
          = trace (fst (fetch_archive demo_world ''https://github.com/owner/MyRepo''
              (Some quiet_callback) (start Map.empty)))
            @ (0.85, ''Extracting MyRepo...'') # R
        \<and> R \<noteq> [] \<and> list_all (\<lambda>p. fst p = 1) R)
   \<and> snd (fetch_archive demo_world ''https://github.com/owner/Other'' (Some quiet_callback)
          (start Map.empty)) = Inl (Raised ''connection refused'')
   \<and> trace (fst (download_github_repo demo_world ''https://github.com/owner/Other''
              ''dest'' (Some quiet_callback) (start Map.empty)))
      = trace (fst (fetch_archive demo_world ''https://github.com/owner/Other''
              (Some quiet_callback) (start Map.empty)))
        @ [(1, ''Failed to download https://github.com/owner/Other: connection refused'')]
   \<and> list_all (\<lambda>p. fst p \<noteq> 0.85)
       (trace (fst (download_github_repo demo_world ''https://github.com/owner/Other''
              ''dest'' (Some quiet_callback) (start Map.empty))))"
  using download_phase_then_extraction[OF demo_fetch demo_run]
    download_phase_then_extraction[OF demo_fetch_refused demo_refused]
  by (simp add: demo_fetch demo_run demo_fetch_refused demo_refused list_all_iff
      get_repo_name_def match_at_def not_slash_def replace.simps str_exn_def)

text \<open>
  C7 as stated fails: when the archive request is refused, the callback is invoked
  with 0.05 and then with the terminal 1, and never with 0.85.
\<close>

theorem refused_download_skips_extraction_report:
  "map fst (trace (fst (download_github_repo demo_world ''https://github.com/owner/Other''
      ''dest'' (Some quiet_callback) (start Map.empty)))) = [0.05, 1]"
  by (simp add: demo_refused)

section \<open>Branch resolution\<close>

text \<open>
  C8. \<open>get_default_branch\<close> never raises: every call returns a value. For a URL
  that contains no segment of the form \<open>github.com/<owner>/<repo>\<close> it returns \<open>main\<close>
  and leaves the state as it was, so no request is made. It returns \<open>main\<close> as well
  whenever its \<open>try\<close> block raises an exception, and whenever the response has a
  status other than 200.
\<close>

theorem get_default_branch_total:
  "(\<exists>s' v. get_default_branch w repo_url s = (s', Inr v))
   \<and> (\<not> matches_pattern repo_url
        \<longrightarrow> get_default_branch w repo_url s = (s, Inr (PStr ''main'')))
   \<and> (\<forall>s1 e. get_default_branch_body w repo_url s = (s1, Inl e)
        \<longrightarrow> get_default_branch w repo_url s = (s1, Inr (PStr ''main'')))
   \<and> (\<forall>ow rp resp. re_search repo_url = Some (ow, rp)
        \<and> requests_get w (length (requests s)) (''https://api.github.com/repos/'' @ ow @ ''/'' @ rp)
            = Inr resp
        \<and> status_code resp \<noteq> 200
        \<longrightarrow> snd (get_default_branch w repo_url s) = Inr (PStr ''main''))"
proof (intro conjI impI allI)
  show "\<exists>s' v. get_default_branch w repo_url s = (s', Inr v)"
    by (auto simp: get_default_branch_def try_except_def py_return_def
        split: prod.splits sum.splits)
next
  assume "\<not> matches_pattern repo_url"
  then have "re_search repo_url = None" by (simp add: re_search_None_iff)
  then show "get_default_branch w repo_url s = (s, Inr (PStr ''main''))"
    by (simp add: get_default_branch_def get_default_branch_body_def try_except_def
        py_return_def)
next
  fix s1 e assume "get_default_branch_body w repo_url s = (s1, Inl e)"
  then show "get_default_branch w repo_url s = (s1, Inr (PStr ''main''))"
    by (simp add: get_default_branch_def try_except_def py_return_def)
next
  fix ow rp resp
  assume "re_search repo_url = Some (ow, rp)
        \<and> requests_get w (length (requests s)) (''https://api.github.com/repos/'' @ ow @ ''/'' @ rp)
            = Inr resp
        \<and> status_code resp \<noteq> 200"
  then show "snd (get_default_branch w repo_url s) = Inr (PStr ''main'')"
    by (simp add: get_default_branch_def get_default_branch_body_def try_except_def
        py_return_def py_bind_def http_get_def)
qed

text \<open>
  In the concrete environment: a string that is no repository URL, a repository whose
  metadata request is refused, and one that is answered with status 404.
\<close>

theorem get_default_branch_total_witness:
  "get_default_branch demo_world ''ftp://example.org/archive'' (start Map.empty)
     = (start Map.empty, Inr (PStr ''main''))
   \<and> snd (get_default_branch demo_world ''https://github.com/owner/Other'' (start Map.empty))
     = Inr (PStr ''main'')
   \<and> snd (get_default_branch demo_world ''https://github.com/owner/Gone'' (start Map.empty))
     = Inr (PStr ''main'')"
proof -
  have none: "re_search ''ftp://example.org/archive'' = None"
    by (simp add: match_at_def)
  have gone: "re_search ''https://github.com/owner/Gone'' = Some (''owner'', ''Gone'')
      \<and> requests_get demo_world (length (requests (start Map.empty)))
           (''https://api.github.com/repos/'' @ ''owner'' @ ''/'' @ ''Gone'')
         = Inr (ok_response\<lparr>status_code := 404, http_error := ''404 Client Error''\<rparr>)
      \<and> status_code (ok_response\<lparr>status_code := 404, http_error := ''404 Client Error''\<rparr>)
         \<noteq> 200"
    by (simp add: match_at_def not_slash_def demo_world_def start_def)
  from get_default_branch_total[of demo_world "''ftp://example.org/archive''" "start Map.empty"]
       get_default_branch_total[of demo_world "''https://github.com/owner/Other''"
         "start Map.empty"]
       get_default_branch_total[of demo_world "''https://github.com/owner/Gone''"
         "start Map.empty"]
       none gone demo_branch_refused
  show ?thesis by (simp add: re_search_None_iff[symmetric])
qed

section \<open>The archive URL\<close>

text \<open>
  C9. The archive URL is \<open>https://github.com/\<close>, then the part of the input string
  after its last occurrence of \<open>github.com/\<close>, taken as it is, then
  \<open>/archive/refs/heads/\<close>, the resolved branch and \<open>.zip\<close>. (For an input without any
  occurrence the whole input stands in that place.) It is built from the raw input,
  not from the owner and repository that the pattern match yields, and it is the one
  URL the function requests after branch resolution; no further request is made, and
  none at all when the callback raises on the first report.
\<close>

theorem archive_url_from_raw_input:
  "(repo_url = pre @ ''github.com/'' @ suf \<and> \<not> sublist ''github.com/'' suf
      \<longrightarrow> zip_url w repo_url branch
          = ''https://github.com/'' @ suf @ ''/archive/refs/heads/'' @ format w branch @ ''.zip'')
   \<and> (\<not> sublist ''github.com/'' repo_url
      \<longrightarrow> zip_url w repo_url branch
          = ''https://github.com/'' @ repo_url @ ''/archive/refs/heads/'' @ format w branch
            @ ''.zip'')
   \<and> (\<forall>s s0 s' r. get_default_branch w repo_url s = (s0, Inr branch)
         \<and> download_github_repo w repo_url save_path cb s = (s', r)
      \<longrightarrow> requests s' = requests s0 @ [zip_url w repo_url branch]
          \<or> (cb \<noteq> None \<and> requests s' = requests s0))"
proof (intro conjI impI allI)
  assume a: "repo_url = pre @ ''github.com/'' @ suf \<and> \<not> sublist ''github.com/'' suf"
  have "last (split repo_url ''github.com/'') = suf"
    by (rule zip_url_tail[OF conjunct1[OF a] conjunct2[OF a]])
  then show "zip_url w repo_url branch
          = ''https://github.com/'' @ suf @ ''/archive/refs/heads/'' @ format w branch @ ''.zip''"
    by (simp add: zip_url_def)
next
  assume "\<not> sublist ''github.com/'' repo_url"
  then have "last (split repo_url ''github.com/'') = repo_url"
    by (rule zip_url_whole)
  then show "zip_url w repo_url branch
          = ''https://github.com/'' @ repo_url @ ''/archive/refs/heads/'' @ format w branch
            @ ''.zip''"
    by (simp add: zip_url_def)
next
  fix s s0 s' r
  assume a: "get_default_branch w repo_url s = (s0, Inr branch)
         \<and> download_github_repo w repo_url save_path cb s = (s', r)"
  show "requests s' = requests s0 @ [zip_url w repo_url branch]
          \<or> (cb \<noteq> None \<and> requests s' = requests s0)"
    by (rule github_requests[OF conjunct1[OF a] conjunct2[OF a]])
qed

text \<open>
  An input with upper-case letters, a further path segment and a trailing slash: all
  of it goes into the archive URL, while the pattern match yields the owner \<open>Owner\<close>
  and the repository \<open>MyRepo\<close>.
\<close>

theorem archive_url_from_raw_input_witness:
  "zip_url demo_world ''https://github.com/Owner/MyRepo/tree/'' (PStr ''main'')
     = ''https://github.com/Owner/MyRepo/tree//archive/refs/heads/main.zip''
   \<and> re_search ''https://github.com/Owner/MyRepo/tree/'' = Some (''Owner'', ''MyRepo'')
   \<and> zip_url demo_world ''Owner/MyRepo'' (PStr ''main'')
     = ''https://github.com/Owner/MyRepo/archive/refs/heads/main.zip''
   \<and> requests (fst (download_github_repo demo_world ''https://github.com/owner/MyRepo'' ''dest''
        (Some quiet_callback) (start Map.empty)))
     = [''https://api.github.com/repos/owner/MyRepo'',
        ''https://github.com/owner/MyRepo/archive/refs/heads/master.zip'']"
proof -
  have n1: "\<not> sublist ''github.com/'' ''Owner/MyRepo/tree/''"
    by (simp add: str_in_sublist[symmetric])
  have n2: "\<not> sublist ''github.com/'' ''Owner/MyRepo''"
    by (simp add: str_in_sublist[symmetric])
  have z1: "zip_url demo_world (''https://'' @ ''github.com/'' @ ''Owner/MyRepo/tree/'')
              (PStr ''main'')
            = ''https://github.com/'' @ ''Owner/MyRepo/tree/'' @ ''/archive/refs/heads/''
              @ format demo_world (PStr ''main'') @ ''.zip''"
    by (rule archive_url_from_raw_input[THEN conjunct1, rule_format]) (rule conjI[OF refl n1])
  have z2: "zip_url demo_world ''Owner/MyRepo'' (PStr ''main'')
            = ''https://github.com/'' @ ''Owner/MyRepo'' @ ''/archive/refs/heads/''
              @ format demo_world (PStr ''main'') @ ''.zip''"
    by (rule archive_url_from_raw_input[THEN conjunct2, THEN conjunct1, rule_format]) (rule n2)
  have m: "re_search ''https://github.com/Owner/MyRepo/tree/'' = Some (''Owner'', ''MyRepo'')"
    by (simp add: match_at_def not_slash_def)
  have rq: "requests (fst (download_github_repo demo_world ''https://github.com/owner/MyRepo''
        ''dest'' (Some quiet_callback) (start Map.empty)))
     = [''https://api.github.com/repos/owner/MyRepo'',
        ''https://github.com/owner/MyRepo/archive/refs/heads/master.zip'']"
    by (simp add: demo_run)
  from z1 z2 m rq show ?thesis by (simp add: format_def)
qed

section \<open>The partial file of a failed release download\<close>




end
